theory Spec2Isabelle
  imports Main
begin

section \<open>JavaScript values and exceptions\<close>

text \<open>
  The values the public methods of the job can receive. Numbers are only tested for
  truthiness and type, so integers stand for them. \<open>JObj\<close> is a plain object given by its
  own enumerable properties in insertion order; \<open>JFun\<close> is a function object with its own
  enumerable properties.
\<close>

datatype js_value =
    JUndefined
  | JNull
  | JBool bool
  | JNum int
  | JStr string
  | JArr "js_value list"
  | JObj "(string \<times> js_value) list"
  | JFun "(string \<times> js_value) list"

text \<open>Truthiness of a value, as the operator \<open>!\<close> and \<open>if (...)\<close> see it.\<close>

fun truthy :: "js_value \<Rightarrow> bool" where
  "truthy JUndefined = False"
| "truthy JNull = False"
| "truthy (JBool b) = b"
| "truthy (JNum n) = (n \<noteq> 0)"
| "truthy (JStr s) = (s \<noteq> [])"
| "truthy (JArr xs) = True"
| "truthy (JObj kvs) = True"
| "truthy (JFun kvs) = True"

text \<open>The lodash type tests: \<open>_.isObject\<close> holds of arrays and functions too.\<close>

fun isString :: "js_value \<Rightarrow> bool" where
  "isString (JStr s) = True"
| "isString v = False"

fun isArray :: "js_value \<Rightarrow> bool" where
  "isArray (JArr xs) = True"
| "isArray v = False"

fun isObject :: "js_value \<Rightarrow> bool" where
  "isObject (JArr xs) = True"
| "isObject (JObj kvs) = True"
| "isObject (JFun kvs) = True"
| "isObject v = False"

text \<open>
  What a method can throw: \<open>Error msg\<close> is \<open>throw new Error(msg)\<close> of the source,
  \<open>TypeError\<close> is the engine's exception on reading a property of \<open>undefined\<close> or
  \<open>null\<close>.
\<close>

datatype error = Error string | TypeError

text \<open>
  A method either returns or throws; in both cases the receiver is left in some state,
  which the outcome carries.
\<close>

datatype 's outcome = Returned 's | Thrown error 's

fun state_of :: "'s outcome \<Rightarrow> 's" where
  "state_of (Returned s) = s"
| "state_of (Thrown e s) = s"

fun has_returned :: "'s outcome \<Rightarrow> bool" where
  "has_returned (Returned s) = True"
| "has_returned (Thrown e s) = False"

section \<open>Plans, agents and jobs\<close>

text \<open>
  A node of a plan group, \<open>{taskId, sync, selfSync}\<close>; a flag that is not set is
  \<open>None\<close>.
\<close>

record taskSpec =
  taskId :: string
  sync :: "bool option"
  selfSync :: "bool option"

type_synonym planGroup = "taskSpec list"

text \<open>
  The agent is an external object. The job reads its plan (\<open>_plan\<close>), its registry of
  task definitions (\<open>_taskDefinitions\<close>) and its \<open>id\<close>. A task definition is represented
  by the sequence of task instances its \<open>_build()\<close> returns. The registry is an object:
  \<open>taskDefinitions\<close> gives its own properties, the task definitions, and
  \<open>registry_inherits\<close> says which other names it has through its prototype chain. What
  it inherits is not a task definition and has no \<open>_build\<close> method.
\<close>

record 'task agent =
  agent_plan :: "planGroup list"
  taskDefinitions :: "string \<rightharpoonup> 'task list"
  registry_inherits :: "string \<Rightarrow> bool"
  agent_id :: string

text \<open>
  The names every plain object inherits from \<open>Object.prototype\<close>: a registry written as
  an object literal inherits these.
\<close>

definition object_prototype_names :: "string list" where
  "object_prototype_names =
     [''constructor'', ''toString'', ''toLocaleString'', ''valueOf'', ''hasOwnProperty'',
      ''isPrototypeOf'', ''propertyIsEnumerable'', ''__proto__'', ''__defineGetter__'',
      ''__defineSetter__'', ''__lookupGetter__'', ''__lookupSetter__'']"

definition object_prototype_has :: "string \<Rightarrow> bool" where
  "object_prototype_has k = (k \<in> set object_prototype_names)"

text \<open>
  The value of \<open>_taskDefinitions[taskId]\<close>: an own property is found first, then the
  prototype chain is followed, and \<open>undefined\<close> is the value when neither has the name.
\<close>

datatype 'task registry_value =
    RegistryUndefined
  | RegistryDefinition "'task list"
  | RegistryInherited

definition registry_get :: "'task agent \<Rightarrow> string \<Rightarrow> 'task registry_value" where
  "registry_get ag k =
     (case taskDefinitions ag k of
        Some tasks \<Rightarrow> RegistryDefinition tasks
      | None \<Rightarrow> if registry_inherits ag k then RegistryInherited else RegistryUndefined)"

text \<open>
  An execution object \<open>{task: ..., next: ...}\<close> lives in a store and is referred to by its
  address (its index in the store); \<open>next\<close> is \<open>null\<close> or the address of another object.
\<close>

type_synonym addr = nat

record 'task executionObject =
  task :: 'task
  next_object :: "addr option"

type_synonym 'task store = "'task executionObject list"

text \<open>
  The fields of a job, in the order of the constructor. \<open>jobStartListener\<close> says whether
  the listener registered with \<open>once('job:start', ...)\<close> is still registered. The scraper
  reference and the events configuration are never read and are left out. \<open>store\<close> holds
  the execution objects the job has allocated. The object \<open>_params\<close> is given by its own
  properties, \<open>job_params\<close>, and its prototype, \<open>job_params_proto\<close>: \<open>None\<close> is
  \<open>Object.prototype\<close>, the prototype of a new object.
\<close>

record 'task job =
  started :: bool
  jobStartListener :: bool
  planIdx :: int
  executionQueueIdx :: int
  job_params :: "string \<rightharpoonup> js_value"
  job_params_proto :: "js_value option"
  enqueuedTasks :: "string list"
  plan :: "planGroup list option"
  executionQueue :: "addr list list"
  store :: "'task store"
  agent :: "'task agent option"
  uid :: js_value

section \<open>The plan filter\<close>

text \<open>\<open>Array.prototype.indexOf\<close>: the first index of the element, or \<open>-1\<close>.\<close>

fun indexOf :: "'a list \<Rightarrow> 'a \<Rightarrow> int" where
  "indexOf [] x = -1"
| "indexOf (y # ys) x =
     (if y = x then 0 else (let i = indexOf ys x in if i < 0 then -1 else i + 1))"

text \<open>The body of the inner loop of \<open>_applyPlan\<close>, for one enqueued task.\<close>

definition applyPlan_enqueued ::
  "planGroup \<Rightarrow> string list \<Rightarrow> string \<Rightarrow> planGroup \<Rightarrow> planGroup" where
  "applyPlan_enqueued executionGroup groupTaskIds enqueuedTask newTaskGroup =
     (let matchIdx = indexOf groupTaskIds enqueuedTask in
      if matchIdx \<ge> 0 then newTaskGroup @ [executionGroup ! nat matchIdx]
      else newTaskGroup)"

text \<open>
  The body of the outer loop, for one group of the agent's plan. The state is the pair of
  the variables \<open>newExecutionPlan\<close> and \<open>newTaskGroup\<close>, which outlive the iteration.
\<close>

definition applyPlan_group ::
  "string list \<Rightarrow> planGroup \<Rightarrow> planGroup list \<times> planGroup \<Rightarrow> planGroup list \<times> planGroup" where
  "applyPlan_group enqueued executionGroup st =
     (let newExecutionPlan = fst st;
          groupTaskIds = map taskId executionGroup;
          newTaskGroup = fold (applyPlan_enqueued executionGroup groupTaskIds) enqueued (snd st)
      in if length newTaskGroup > 0 then (newExecutionPlan @ [newTaskGroup], [])
         else (newExecutionPlan, newTaskGroup))"

definition newExecutionPlan :: "planGroup list \<Rightarrow> string list \<Rightarrow> planGroup list" where
  "newExecutionPlan executionPlan enqueued =
     fst (fold (applyPlan_group enqueued) executionPlan ([], []))"

text \<open>\<open>Job.prototype._applyPlan\<close>: reading \<open>_plan\<close> of a missing agent throws.\<close>

definition applyPlan :: "'task job \<Rightarrow> 'task job outcome" where
  "applyPlan j =
     (case agent j of
        None \<Rightarrow> Thrown TypeError j
      | Some ag \<Rightarrow>
          Returned (j\<lparr>plan := Some (newExecutionPlan (agent_plan ag) (enqueuedTasks j))\<rparr>))"

text \<open>
  The filtered group as the specification words it: the enqueued identifiers in the
  caller's order, each replaced by the task spec of the group it matches, if any.
\<close>

definition matched_specs :: "planGroup \<Rightarrow> string list \<Rightarrow> planGroup" where
  "matched_specs executionGroup enqueued =
     List.map_filter (\<lambda>e. find (\<lambda>t. taskId t = e) executionGroup) enqueued"

definition spec_a :: taskSpec where
  "spec_a = \<lparr>taskId = ''a'', sync = None, selfSync = None\<rparr>"

definition spec_b :: taskSpec where
  "spec_b = \<lparr>taskId = ''b'', sync = None, selfSync = Some True\<rparr>"

section \<open>The execution block builder\<close>

text \<open>
  \<open>Job.prototype._buildTask\<close>. The first argument is \<open>this._agent\<close> of the receiver,
  \<open>None\<close> when the receiver has no such property: reading \<open>_taskDefinitions\<close> of it then
  throws before anything else happens. The error of the source is thrown when the registry
  gives \<open>undefined\<close>; calling \<open>_build()\<close> on a value the registry only inherits throws a
  \<open>TypeError\<close>.
\<close>

definition buildTask :: "'task agent option \<Rightarrow> taskSpec \<Rightarrow> error + 'task list" where
  "buildTask this_agent taskSpecs =
     (case this_agent of
        None \<Rightarrow> Inl TypeError
      | Some ag \<Rightarrow>
          (let taskDefinition = registry_get ag (taskId taskSpecs);
               errMsg = ''Task with id '' @ taskId taskSpecs @
                        '' does not exist in agent '' @ agent_id ag
           in case taskDefinition of
                RegistryUndefined \<Rightarrow> Inl (Error errMsg)
              | RegistryInherited \<Rightarrow> Inl TypeError
              | RegistryDefinition tasks \<Rightarrow> Inr tasks))"

text \<open>
  The body of the inner loop of \<open>_buildExecutionBlock\<close>, for one task instance. The state
  is the store, the variable \<open>executionBlock\<close> and the variable \<open>previousObject\<close>. The new
  object is allocated at the end of the store; \<open>previousObject.next = executionObject\<close>
  updates the object at the address \<open>previousObject\<close> in place (an address the loop has
  allocated before, so it is in the store). \<open>selfSync\<close> is truthy when it is \<open>true\<close>.
\<close>

definition buildExecutionBlock_task ::
  "taskSpec \<Rightarrow> 'task \<Rightarrow> 'task store \<times> addr list \<times> addr option
     \<Rightarrow> 'task store \<times> addr list \<times> addr option" where
  "buildExecutionBlock_task taskSpecs t st =
     (let h = fst st; executionBlock = fst (snd st); previousObject = snd (snd st);
          executionObject = length h;
          h = h @ [\<lparr>task = t, next_object = None\<rparr>]
      in if selfSync taskSpecs = Some True then
           (case previousObject of
              Some p \<Rightarrow>
                (h[p := (h ! p)\<lparr>next_object := Some executionObject\<rparr>], executionBlock,
                 Some executionObject)
            | None \<Rightarrow> (h, executionBlock @ [executionObject], Some executionObject))
         else (h, executionBlock @ [executionObject], previousObject))"

text \<open>
  The outer loop, over the task specs of the group: \<open>previousObject\<close> is reset for each
  spec, and an exception of \<open>_buildTask\<close> ends the loop and the method.
\<close>

fun buildExecutionBlock_specs ::
  "'task agent option \<Rightarrow> planGroup \<Rightarrow> 'task store \<times> addr list
     \<Rightarrow> ('task store \<times> addr list) outcome" where
  "buildExecutionBlock_specs this_agent [] st = Returned st"
| "buildExecutionBlock_specs this_agent (taskSpecs # rest) st =
     (case buildTask this_agent taskSpecs of
        Inl e \<Rightarrow> Thrown e st
      | Inr tasks \<Rightarrow>
          (let st' = fold (buildExecutionBlock_task taskSpecs) tasks (fst st, snd st, None)
           in buildExecutionBlock_specs this_agent rest (fst st', fst (snd st'))))"

text \<open>
  \<open>Job.prototype._buildExecutionBlock\<close>, given \<open>this._agent\<close> of the receiver and the
  store. The plan group is \<open>None\<close> when the argument is \<open>undefined\<close>, over which \<open>_.each\<close>
  does not iterate. The outcome carries the store and the block returned.
\<close>

definition buildExecutionBlock ::
  "'task agent option \<Rightarrow> 'task store \<Rightarrow> planGroup option
     \<Rightarrow> ('task store \<times> addr list) outcome" where
  "buildExecutionBlock this_agent h planGroup =
     (case planGroup of
        None \<Rightarrow> Returned (h, [])
      | Some g \<Rightarrow> buildExecutionBlock_specs this_agent g (h, []))"

text \<open>
  An execution unit as a program sees it when it follows \<open>next\<close> from a head: the task
  and the unit that comes next, if any.
\<close>

datatype 'task executionUnit = ExecutionUnit 'task "'task executionUnit option"

text \<open>
  Reading the unit at an address of the store, following at most \<open>fuel\<close> links; \<open>None\<close>
  when the fuel runs out or an address is not allocated.
\<close>

fun read_unit :: "'task store \<Rightarrow> nat \<Rightarrow> addr \<Rightarrow> 'task executionUnit option" where
  "read_unit h 0 a = None"
| "read_unit h (Suc fuel) a =
     (if a < length h then
        (case next_object (h ! a) of
           None \<Rightarrow> Some (ExecutionUnit (task (h ! a)) None)
         | Some a' \<Rightarrow>
             (case read_unit h fuel a' of
                None \<Rightarrow> None
              | Some u \<Rightarrow> Some (ExecutionUnit (task (h ! a)) (Some u))))
      else None)"

text \<open>The chain of the task instances of a self-synchronous task spec, first to last.\<close>

fun chain_of :: "'task \<Rightarrow> 'task list \<Rightarrow> 'task executionUnit" where
  "chain_of t [] = ExecutionUnit t None"
| "chain_of t (t' # ts) = ExecutionUnit t (Some (chain_of t' ts))"

text \<open>
  The heads a task spec contributes to a block, as the specification words it: one head
  per instance when the spec is not self-synchronous, otherwise a single chain of the
  instances (and nothing when there is no instance to start it).
\<close>

definition heads_of :: "taskSpec \<Rightarrow> 'task list \<Rightarrow> 'task executionUnit list" where
  "heads_of taskSpecs tasks =
     (if selfSync taskSpecs = Some True then
        (case tasks of [] \<Rightarrow> [] | t # ts \<Rightarrow> [chain_of t ts])
      else map (\<lambda>t. ExecutionUnit t None) tasks)"

section \<open>The lifecycle\<close>

text \<open>\<open>xs[i]\<close> of an array: \<open>undefined\<close> out of range.\<close>

definition nth_opt :: "'a list \<Rightarrow> int \<Rightarrow> 'a option" where
  "nth_opt xs i = (if 0 \<le> i \<and> i < int (length xs) then Some (xs ! nat i) else None)"

text \<open>
  \<open>Job.prototype\<close> is the receiver of the call in \<open>_applyNextExecutionBlock\<close>. It has no
  \<open>_agent\<close> property: the constructor sets \<open>_agent\<close> on the instances only.
\<close>

definition Job_prototype_agent :: "'task agent option" where
  "Job_prototype_agent = None"

text \<open>\<open>Job.prototype._onEqApplyBlock\<close>: the body is empty.\<close>

definition onEqApplyBlock :: "'task job \<Rightarrow> 'task job outcome" where
  "onEqApplyBlock j = Returned j"

text \<open>
  \<open>this._events.emit('eq:applyBlock')\<close>: the listener registered by
  \<open>_setEventListeners\<close> runs synchronously.
\<close>

definition emit_eqApplyBlock :: "'task job \<Rightarrow> 'task job outcome" where
  "emit_eqApplyBlock j = onEqApplyBlock j"

text \<open>
  \<open>Job.prototype._applyNextExecutionBlock\<close>. The index is incremented first; reading an
  element of \<open>_plan\<close> while it is \<open>null\<close> throws; the block is built by a call on
  \<open>Job.prototype\<close>, not on the job.
\<close>

definition applyNextExecutionBlock :: "'task job \<Rightarrow> 'task job outcome" where
  "applyNextExecutionBlock j =
     (let j1 = j\<lparr>planIdx := planIdx j + 1\<rparr> in
      case plan j1 of
        None \<Rightarrow> Thrown TypeError j1
      | Some p \<Rightarrow>
          (case buildExecutionBlock Job_prototype_agent (store j1) (nth_opt p (planIdx j1)) of
             Thrown e st \<Rightarrow> Thrown e (j1\<lparr>store := fst st\<rparr>)
           | Returned st \<Rightarrow>
               emit_eqApplyBlock
                 (j1\<lparr>store := fst st, executionQueue := executionQueue j1 @ [snd st]\<rparr>)))"

text \<open>
  The agent's setup hook is external: it is a parameter, a function from the agent to the
  outcome of \<open>_applySetup()\<close> on it.
\<close>

type_synonym 'task setupHook = "'task agent \<Rightarrow> 'task agent outcome"

definition applyAgentSetup :: "'task setupHook \<Rightarrow> 'task job \<Rightarrow> 'task job outcome" where
  "applyAgentSetup applySetup j =
     (case agent j of
        None \<Rightarrow> Thrown TypeError j
      | Some ag \<Rightarrow>
          (case applySetup ag of
             Thrown e ag' \<Rightarrow> Thrown e (j\<lparr>agent := Some ag'\<rparr>)
           | Returned ag' \<Rightarrow> Returned (j\<lparr>agent := Some ag'\<rparr>)))"

definition prepareRun :: "'task setupHook \<Rightarrow> 'task job \<Rightarrow> 'task job outcome" where
  "prepareRun applySetup j =
     (case applyAgentSetup applySetup j of
        Thrown e j' \<Rightarrow> Thrown e j'
      | Returned j' \<Rightarrow> applyPlan j')"

definition onJobStart :: "'task setupHook \<Rightarrow> 'task job \<Rightarrow> 'task job outcome" where
  "onJobStart applySetup j =
     (case prepareRun applySetup j of
        Thrown e j' \<Rightarrow> Thrown e j'
      | Returned j' \<Rightarrow> applyNextExecutionBlock j')"

text \<open>
  \<open>Job.prototype._setEventListeners\<close>: the listener of \<open>job:start\<close> is registered with
  \<open>once\<close>; the listener of \<open>eq:applyBlock\<close> is \<open>emit_eqApplyBlock\<close> above.
\<close>

definition setEventListeners :: "'task job \<Rightarrow> 'task job outcome" where
  "setEventListeners j = Returned (j\<lparr>jobStartListener := True\<rparr>)"

text \<open>
  \<open>this._events.emit('job:start')\<close>: a listener registered with \<open>once\<close> is removed before
  it runs, it runs synchronously, and what it throws reaches the caller of \<open>emit\<close>.
\<close>

definition emit_jobStart :: "'task setupHook \<Rightarrow> 'task job \<Rightarrow> 'task job outcome" where
  "emit_jobStart applySetup j =
     (if jobStartListener j then onJobStart applySetup (j\<lparr>jobStartListener := False\<rparr>)
      else Returned j)"

definition run :: "'task setupHook \<Rightarrow> 'task job \<Rightarrow> 'task job outcome" where
  "run applySetup j =
     (if started j then Returned j
      else emit_jobStart applySetup (j\<lparr>started := True\<rparr>))"

section \<open>Construction, parameters and enqueuing\<close>

text \<open>The \<open>length\<close> of a string value; only read of strings.\<close>

fun js_length :: "js_value \<Rightarrow> int" where
  "js_length (JStr s) = int (length s)"
| "js_length (JArr xs) = int (length xs)"
| "js_length v = 0"

fun the_string :: "js_value \<Rightarrow> string" where
  "the_string (JStr s) = s"
| "the_string v = []"

definition setUid :: "'task job \<Rightarrow> js_value \<Rightarrow> 'task job outcome" where
  "setUid j argUid =
     (if \<not> truthy argUid \<or> \<not> isString argUid \<or> js_length argUid \<le> 0
      then Thrown (Error ''Job uid must be a valid string'') j
      else Returned (j\<lparr>uid := argUid\<rparr>))"

text \<open>The constructor \<open>Job(uid, scraper, agent)\<close>; an argument not given is \<open>undefined\<close>.\<close>

definition Job :: "js_value \<Rightarrow> 'task agent option \<Rightarrow> 'task job outcome" where
  "Job uid_arg agent_arg =
     (let this = \<lparr>started = False, jobStartListener = False, planIdx = -1,
                  executionQueueIdx = -1, job_params = Map.empty,
                  job_params_proto = None, enqueuedTasks = [],
                  plan = None, executionQueue = [], store = [], agent = agent_arg,
                  uid = JNull\<rparr>
      in case (if uid_arg \<noteq> JUndefined then setUid this uid_arg else Returned this) of
           Thrown e this' \<Rightarrow> Thrown e this'
         | Returned this' \<Rightarrow> setEventListeners this')"

text \<open>The own enumerable properties of a value, which \<open>_.extend\<close> copies in order.\<close>

fun own_properties :: "js_value \<Rightarrow> (string \<times> js_value) list" where
  "own_properties (JObj kvs) = kvs"
| "own_properties (JFun kvs) = kvs"
| "own_properties v = []"

text \<open>
  Whether an assignment to the name \<open>__proto__\<close>, on an object that has no own property
  of that name and has the prototype \<open>p\<close>, reaches the accessor of \<open>Object.prototype\<close>:
  it does not when the prototype is \<open>null\<close>, or is an object with an own property of
  that name.
\<close>

fun proto_accessor_reached :: "js_value option \<Rightarrow> bool" where
  "proto_accessor_reached None = True"
| "proto_accessor_reached (Some JNull) = False"
| "proto_accessor_reached (Some (JObj kvs)) = (map_of kvs ''__proto__'' = None)"
| "proto_accessor_reached (Some (JFun kvs)) = (map_of kvs ''__proto__'' = None)"
| "proto_accessor_reached (Some v) = True"

text \<open>
  The assignment \<open>result[key] = value\<close> of \<open>_.extend\<close>, on an object given by its own
  properties and its prototype. Every name but \<open>__proto__\<close> becomes or stays an own
  property. The name \<open>__proto__\<close> reaches the setter of \<open>Object.prototype\<close>, unless it
  is an own property already or the accessor is not reached: the setter replaces the
  prototype when the value is an object or \<open>null\<close> and does nothing otherwise.
\<close>

definition assign_property ::
  "string \<Rightarrow> js_value \<Rightarrow> (string \<rightharpoonup> js_value) \<times> js_value option
     \<Rightarrow> (string \<rightharpoonup> js_value) \<times> js_value option" where
  "assign_property key val obj =
     (if key = ''__proto__'' \<and> fst obj key = None \<and> proto_accessor_reached (snd obj)
      then (if isObject val \<or> val = JNull then (fst obj, Some val) else obj)
      else ((fst obj)(key \<mapsto> val), snd obj))"

text \<open>\<open>_.extend(result, source)\<close>: the own properties of the source are assigned in order.\<close>

definition lodash_extend ::
  "(string \<rightharpoonup> js_value) \<times> js_value option \<Rightarrow> (string \<times> js_value) list
     \<Rightarrow> (string \<rightharpoonup> js_value) \<times> js_value option" where
  "lodash_extend obj kvs = fold (\<lambda>kv. assign_property (fst kv) (snd kv)) kvs obj"

text \<open>
  What a method returns: \<open>params\<close> and \<open>enqueue\<close> end with \<open>return this\<close>. A call
  either returns a value or throws, and leaves the receiver in some state.
\<close>

datatype return_value = ReturnThis | ReturnUndefined

datatype 's call = Returns return_value 's | Throws error 's

text \<open>The effect of a call on the receiver, without the value returned.\<close>

fun effect :: "'s call \<Rightarrow> 's outcome" where
  "effect (Returns v s) = Returned s"
| "effect (Throws e s) = Thrown e s"

text \<open>\<open>Job.prototype.params\<close>, with the value it returns.\<close>

definition params_method :: "'task job \<Rightarrow> js_value \<Rightarrow> 'task job call" where
  "params_method j paramsObj =
     (if isArray paramsObj \<or> \<not> isObject paramsObj
      then Throws (Error ''Params must be an object'') j
      else (let obj = lodash_extend (job_params j, job_params_proto j)
                        (own_properties paramsObj)
            in Returns ReturnThis (j\<lparr>job_params := fst obj, job_params_proto := snd obj\<rparr>)))"

definition params :: "'task job \<Rightarrow> js_value \<Rightarrow> 'task job outcome" where
  "params j paramsObj = effect (params_method j paramsObj)"

text \<open>\<open>Job.prototype.enqueue\<close>, with the value it returns.\<close>

definition enqueue_method :: "'task job \<Rightarrow> js_value \<Rightarrow> 'task job call" where
  "enqueue_method j taskId_arg =
     (if \<not> isString taskId_arg \<or> js_length taskId_arg \<le> 0
      then Throws (Error (''Enqueue params isn'' @ [CHR 0x27] @ ''t a valid string'')) j
      else Returns ReturnThis
             (j\<lparr>enqueuedTasks := enqueuedTasks j @ [the_string taskId_arg]\<rparr>))"

definition enqueue :: "'task job \<Rightarrow> js_value \<Rightarrow> 'task job outcome" where
  "enqueue j taskId_arg = effect (enqueue_method j taskId_arg)"

section \<open>The Http wrapper\<close>

text \<open>
  What \<open>_interceptResponse\<close> reads of a response: \<open>res.request.uri.protocol\<close>,
  \<open>res.request.uri.hostname\<close> and \<open>res.request.href\<close>; the rest of the response is
  \<open>payload\<close>.
\<close>

record uriObj =
  protocol :: string
  hostname :: string

record requestObj =
  uri :: uriObj
  href :: string

record 'r response =
  request :: requestObj
  payload :: 'r

text \<open>An entry of the log, \<open>{response, body, cookies, request, url}\<close>.\<close>

record ('r, 'b) logEntry =
  log_response :: "'r response"
  log_body :: "'b option"
  log_cookies :: string
  log_request :: requestObj
  log_url :: string

text \<open>
  The wrapper: the cookie jar, represented by its \<open>getCookieString\<close>, and the log. The
  instance of the request library is external.
\<close>

record ('r, 'b) http =
  cookieJar :: "string \<Rightarrow> string"
  http_log :: "('r, 'b) logEntry list"

text \<open>
  The constructor \<open>Http(defaultCookies)\<close>: the jar given or a new one, which resolves
  the empty string for every address, and an empty log.
\<close>

definition Http :: "(string \<Rightarrow> string) option \<Rightarrow> ('r, 'b) http" where
  "Http defaultCookies =
     \<lparr>cookieJar = (case defaultCookies of Some jar \<Rightarrow> jar | None \<Rightarrow> (\<lambda>u. [])),
      http_log = []\<rparr>"

text \<open>A call of the caller's callback, with its arguments \<open>(err, res, body)\<close>.\<close>

datatype ('r, 'b) callback_call =
  Callback_call "error option" "'r response option" "'b option"

fun isFunction :: "js_value \<Rightarrow> bool" where
  "isFunction (JFun kvs) = True"
| "isFunction v = False"

definition pushToLog :: "('r, 'b) http \<Rightarrow> ('r, 'b) logEntry \<Rightarrow> ('r, 'b) http" where
  "pushToLog this logEntry = this\<lparr>http_log := http_log this @ [logEntry]\<rparr>"

text \<open>
  \<open>Http.prototype._interceptResponse\<close>. An argument that is \<open>null\<close> or \<open>undefined\<close> is
  \<open>None\<close>. The outcome carries the wrapper and the call of the callback, if one is made.
  With an error the callback is called without a test that it is a function; without an
  error \<open>res.request\<close> is read.
\<close>

definition interceptResponse ::
  "('r, 'b) http \<Rightarrow> error option \<Rightarrow> 'r response option \<Rightarrow> 'b option \<Rightarrow> js_value
     \<Rightarrow> (('r, 'b) http \<times> ('r, 'b) callback_call option) outcome" where
  "interceptResponse this err res body callback =
     (case err of
        Some e \<Rightarrow>
          (if isFunction callback then Returned (this, Some (Callback_call err None None))
           else Thrown TypeError (this, None))
      | None \<Rightarrow>
          (case res of
             None \<Rightarrow> Thrown TypeError (this, None)
           | Some r \<Rightarrow>
               (let cookieHost = protocol (uri (request r)) @ ''//'' @ hostname (uri (request r));
                    cookieString = cookieJar this cookieHost;
                    this' = pushToLog this
                      \<lparr>log_response = r, log_body = body, log_cookies = cookieString,
                       log_request = request r, log_url = href (request r)\<rparr>
                in if isFunction callback then Returned (this', Some (Callback_call err res body))
                   else Returned (this', None))))"

text \<open>
  The completion of a request, as the request library reports it: the arguments
  \<open>(err, res, body)\<close> of its callback, and the cookie jar as the library has left it (it
  stores the cookies of the response before it calls back).
\<close>

record ('r, 'b) completion =
  c_err :: "error option"
  c_res :: "'r response option"
  c_body :: "'b option"
  c_jar :: "string \<Rightarrow> string"

datatype verb = Del | Get | Head | Patch | Post | Put

text \<open>
  The delegates \<open>del\<close>, \<open>get\<close>, \<open>head\<close>, \<open>patch\<close>, \<open>post\<close> and \<open>put\<close> have the same body but
  for the method of the request library they call: each passes the library a function
  that hands \<open>(err, res, body)\<close> and the callback selected by \<open>_initRequestParams\<close> to
  \<open>_interceptResponse\<close>. This is that function, run when the request completes.
\<close>

fun delegate_completed ::
  "verb \<Rightarrow> ('r, 'b) http \<Rightarrow> js_value \<Rightarrow> ('r, 'b) completion
     \<Rightarrow> (('r, 'b) http \<times> ('r, 'b) callback_call option) outcome" where
  "delegate_completed Del this callback c =
     interceptResponse (this\<lparr>cookieJar := c_jar c\<rparr>) (c_err c) (c_res c) (c_body c) callback"
| "delegate_completed Get this callback c =
     interceptResponse (this\<lparr>cookieJar := c_jar c\<rparr>) (c_err c) (c_res c) (c_body c) callback"
| "delegate_completed Head this callback c =
     interceptResponse (this\<lparr>cookieJar := c_jar c\<rparr>) (c_err c) (c_res c) (c_body c) callback"
| "delegate_completed Patch this callback c =
     interceptResponse (this\<lparr>cookieJar := c_jar c\<rparr>) (c_err c) (c_res c) (c_body c) callback"
| "delegate_completed Post this callback c =
     interceptResponse (this\<lparr>cookieJar := c_jar c\<rparr>) (c_err c) (c_res c) (c_body c) callback"
| "delegate_completed Put this callback c =
     interceptResponse (this\<lparr>cookieJar := c_jar c\<rparr>) (c_err c) (c_res c) (c_body c) callback"

definition getLog :: "('r, 'b) http \<Rightarrow> ('r, 'b) logEntry list" where
  "getLog this = http_log this"

text \<open>The wrapper after a sequence of completions, in the order in which they happen.\<close>

fun completions ::
  "('r, 'b) http \<Rightarrow> (verb \<times> js_value \<times> ('r, 'b) completion) list \<Rightarrow> ('r, 'b) http" where
  "completions this [] = this"
| "completions this (x # xs) =
     completions (fst (state_of (delegate_completed (fst x) this (fst (snd x)) (snd (snd x))))) xs"

text \<open>The entry a completion adds to the log: none with an error.\<close>

definition entry_of :: "('r, 'b) completion \<Rightarrow> ('r, 'b) logEntry option" where
  "entry_of c =
     (case c_err c of
        Some e \<Rightarrow> None
      | None \<Rightarrow>
          (case c_res c of
             None \<Rightarrow> None
           | Some r \<Rightarrow>
               Some \<lparr>log_response = r, log_body = c_body c,
                     log_cookies = c_jar c (protocol (uri (request r)) @ ''//'' @
                                             hostname (uri (request r))),
                     log_request = request r, log_url = href (request r)\<rparr>))"

text \<open>A second task spec with the identifier of \<open>spec_a\<close> and other flags.\<close>

definition spec_a2 :: taskSpec where
  "spec_a2 = \<lparr>taskId = ''a'', sync = Some True, selfSync = Some True\<rparr>"

section \<open>Closed forms used in the proofs\<close>

text \<open>
  The objects a chain of task instances occupies in the store, from the address \<open>a\<close> on:
  each but the last refers to the next address.
\<close>

fun chain_objs :: "addr \<Rightarrow> 'task \<Rightarrow> 'task list \<Rightarrow> 'task store" where
  "chain_objs a t [] = [\<lparr>task = t, next_object = None\<rparr>]"
| "chain_objs a t (t' # ts) = \<lparr>task = t, next_object = Some (Suc a)\<rparr> # chain_objs (Suc a) t' ts"

text \<open>The objects and the heads one task spec adds, allocating from the address \<open>a\<close> on.\<close>

definition objs_of :: "addr \<Rightarrow> taskSpec \<Rightarrow> 'task list \<Rightarrow> 'task store" where
  "objs_of a s ts =
     (if selfSync s = Some True then (case ts of [] \<Rightarrow> [] | t # ts' \<Rightarrow> chain_objs a t ts')
      else map (\<lambda>t. \<lparr>task = t, next_object = None\<rparr>) ts)"

definition addrs_of :: "addr \<Rightarrow> taskSpec \<Rightarrow> 'task list \<Rightarrow> addr list" where
  "addrs_of a s ts =
     (if selfSync s = Some True then (case ts of [] \<Rightarrow> [] | t # ts' \<Rightarrow> [a])
      else [a ..< a + length ts])"

section \<open>Concrete agents\<close>

text \<open>
  An agent whose registry builds three instances for \<open>a\<close> and three for \<open>b\<close>, and one
  whose builder of \<open>b\<close> returns no instance. Task instances are numbers here, and the
  registries are plain objects.
\<close>

definition agent_ab :: "nat agent" where
  "agent_ab = \<lparr>agent_plan = [[spec_a, spec_b]],
                taskDefinitions = [''a'' \<mapsto> [1, 2, 3], ''b'' \<mapsto> [4, 5, 6]],
                registry_inherits = object_prototype_has,
                agent_id = ''agent1''\<rparr>"

definition agent_b_none :: "nat agent" where
  "agent_b_none = \<lparr>agent_plan = [[spec_b]], taskDefinitions = [''b'' \<mapsto> []],
                    registry_inherits = object_prototype_has,
                    agent_id = ''agent2''\<rparr>"



text \<open>A job constructed for \<open>agent_ab\<close>.\<close>

definition job1 :: "nat job" where
  "job1 = state_of (Job (JStr ''job1'') (Some agent_ab))"

text \<open>The job after \<open>enqueue('a')\<close>.\<close>

definition job1a :: "nat job" where
  "job1a = state_of (enqueue job1 (JStr ''a''))"

text \<open>The job, with nothing enqueued, after \<open>run()\<close>, the setup hook doing nothing.\<close>

definition job1_run :: "nat job" where
  "job1_run = state_of (run Returned job1)"

text \<open>The job with \<open>a\<close> enqueued after \<open>run()\<close>.\<close>

definition job1a_run :: "nat job" where
  "job1a_run = state_of (run Returned job1a)"

text \<open>Both jobs after \<open>_prepareRun()\<close> alone.\<close>

definition job1_prepared :: "nat job" where
  "job1_prepared = state_of (prepareRun Returned job1)"

definition job1a_prepared :: "nat job" where
  "job1a_prepared = state_of (prepareRun Returned job1a)"

section \<open>Concrete requests\<close>

text \<open>
  A response of \<open>http://www.1.com/\<close>, the jar after it has set the cookie \<open>a=1\<close>, the
  completion of that request, the completion of a request that fails, and the entry the
  first one is logged as.
\<close>

definition res1 :: "unit response" where
  "res1 = \<lparr>request = \<lparr>uri = \<lparr>protocol = ''http:'', hostname = ''www.1.com''\<rparr>,
                       href = ''http://www.1.com/''\<rparr>,
           payload = ()\<rparr>"

definition jar1 :: "string \<Rightarrow> string" where
  "jar1 u = (if u = ''http://www.1.com'' then ''a=1'' else [])"

definition completed1 :: "(unit, string) completion" where
  "completed1 = \<lparr>c_err = None, c_res = Some res1, c_body = Some ''Body1'', c_jar = jar1\<rparr>"

definition failed1 :: "(unit, string) completion" where
  "failed1 = \<lparr>c_err = Some (Error ''ECONNREFUSED''), c_res = None, c_body = None,
               c_jar = (\<lambda>u. [])\<rparr>"

definition entry1 :: "(unit, string) logEntry" where
  "entry1 = \<lparr>log_response = res1, log_body = Some ''Body1'', log_cookies = ''a=1'',
             log_request = request res1, log_url = ''http://www.1.com/''\<rparr>"

section \<open>Properties of the plan filter\<close>

lemma indexOf_ge_minus1: "indexOf xs x \<ge> -1"
  by (induction xs) (auto simp: Let_def)

lemma indexOf_neg_iff: "indexOf xs x < 0 \<longleftrightarrow> x \<notin> set xs"
  by (induction xs) (auto simp: Let_def)

lemma indexOf_lt_length: "x \<in> set xs \<Longrightarrow> nat (indexOf xs x) < length xs"
proof (induction xs)
  case Nil
  then show ?case by simp
next
  case (Cons y ys)
  show ?case
  proof (cases "y = x")
    case True
    then show ?thesis by simp
  next
    case False
    with Cons.prems have mem: "x \<in> set ys" by simp
    then have "\<not> indexOf ys x < 0" by (simp add: indexOf_neg_iff)
    with False Cons.IH [OF mem] show ?thesis
      by (simp add: Let_def nat_add_distrib)
  qed
qed

lemma indexOf_find_None:
  "indexOf (map f xs) e < 0 \<longleftrightarrow> find (\<lambda>t. f t = e) xs = None"
  by (induction xs) (auto simp: Let_def)

lemma indexOf_find_Some:
  "0 \<le> indexOf (map f xs) e \<Longrightarrow> find (\<lambda>t. f t = e) xs = Some (xs ! nat (indexOf (map f xs) e))"
proof (induction xs)
  case Nil
  then show ?case by simp
next
  case (Cons y ys)
  show ?case
  proof (cases "f y = e")
    case True
    then show ?thesis by simp
  next
    case False
    with Cons.prems have nn: "0 \<le> indexOf (map f ys) e"
      by (simp add: Let_def split: if_splits)
    from False nn Cons.IH [OF nn] show ?thesis
      by (simp add: Let_def nat_add_distrib)
  qed
qed

lemma fold_applyPlan_enqueued:
  "fold (applyPlan_enqueued g (map taskId g)) enq acc = acc @ matched_specs g enq"
proof (induction enq arbitrary: acc)
  case Nil
  then show ?case by (simp add: matched_specs_def List.map_filter_simps)
next
  case (Cons e enq)
  show ?case
  proof (cases "0 \<le> indexOf (map taskId g) e")
    case True
    from indexOf_find_Some [OF True]
    have "matched_specs g (e # enq) = (g ! nat (indexOf (map taskId g) e)) # matched_specs g enq"
      by (simp add: matched_specs_def List.map_filter_simps)
    with True Cons.IH show ?thesis
      by (simp add: applyPlan_enqueued_def)
  next
    case False
    then have "find (\<lambda>t. taskId t = e) g = None"
      using indexOf_find_None [of taskId g e] by simp
    then have "matched_specs g (e # enq) = matched_specs g enq"
      by (simp add: matched_specs_def List.map_filter_simps)
    with False Cons.IH show ?thesis
      by (simp add: applyPlan_enqueued_def)
  qed
qed

lemma fold_applyPlan_group:
  "fold (applyPlan_group enq) gs (acc, []) =
     (acc @ filter (\<lambda>g. g \<noteq> []) (map (\<lambda>g. matched_specs g enq) gs), [])"
proof (induction gs arbitrary: acc)
  case Nil
  then show ?case by simp
next
  case (Cons g gs)
  show ?case
  proof (cases "matched_specs g enq = []")
    case True
    then show ?thesis
      using Cons.IH [of acc] by (simp add: applyPlan_group_def fold_applyPlan_enqueued)
  next
    case False
    then show ?thesis
      using Cons.IH [of "acc @ [matched_specs g enq]"]
      by (simp add: applyPlan_group_def fold_applyPlan_enqueued)
  qed
qed

lemma newExecutionPlan_eq:
  "newExecutionPlan gs enq = filter (\<lambda>g. g \<noteq> []) (map (\<lambda>g. matched_specs g enq) gs)"
  by (simp add: newExecutionPlan_def fold_applyPlan_group)

lemma count_matched_specs:
  "length (filter (\<lambda>t. taskId t = e) (matched_specs g enq)) =
     (if e \<in> set (map taskId g) then count_list enq e else 0)"
proof (induction enq)
  case Nil
  then show ?case by (simp add: matched_specs_def List.map_filter_simps)
next
  case (Cons x enq)
  show ?case
  proof (cases "find (\<lambda>t. taskId t = x) g")
    case None
    then have step: "matched_specs g (x # enq) = matched_specs g enq"
      by (simp add: matched_specs_def List.map_filter_simps)
    from None have "x \<notin> set (map taskId g)"
      by (auto simp: find_None_iff)
    with step Cons.IH show ?thesis by auto
  next
    case (Some t)
    then have step: "matched_specs g (x # enq) = t # matched_specs g enq"
      by (simp add: matched_specs_def List.map_filter_simps)
    from Some have tx: "taskId t = x" and "t \<in> set g"
      by (auto simp: find_Some_iff)
    then have "x \<in> set (map taskId g)" by auto
    with step tx Cons.IH show ?thesis by auto
  qed
qed

lemma set_matched_specs:
  "t \<in> set (matched_specs g enq) \<Longrightarrow>
     taskId t \<in> set enq \<and> find (\<lambda>s. taskId s = taskId t) g = Some t"
proof (induction enq)
  case Nil
  then show ?case by (simp add: matched_specs_def List.map_filter_simps)
next
  case (Cons x enq)
  show ?case
  proof (cases "find (\<lambda>s. taskId s = x) g")
    case None
    then have "matched_specs g (x # enq) = matched_specs g enq"
      by (simp add: matched_specs_def List.map_filter_simps)
    with Cons show ?thesis by simp
  next
    case (Some u)
    then have step: "matched_specs g (x # enq) = u # matched_specs g enq"
      by (simp add: matched_specs_def List.map_filter_simps)
    from Some have ux: "taskId u = x" by (auto simp: find_Some_iff)
    show ?thesis
    proof (cases "t = u")
      case True
      with Some ux show ?thesis by simp
    next
      case False
      with step Cons.prems have "t \<in> set (matched_specs g enq)" by simp
      with Cons.IH show ?thesis by simp
    qed
  qed
qed

lemma find_nth_indexOf:
  "find (\<lambda>s. f s = e) g = Some t \<Longrightarrow> t = g ! nat (indexOf (map f g) e)"
  using indexOf_find_None [of f g e] indexOf_find_Some [of f g e]
  by (cases "0 \<le> indexOf (map f g) e") auto

text \<open>
  Claim C1. The effective plan that \<open>_applyPlan\<close> stores is the agent's plan, group by
  group and in the agent's order, each group replaced by the specs matched by the enqueued
  identifiers in the caller's order, and the groups left empty dropped: it has no empty
  group. An identifier enqueued \<open>k\<close> times contributes \<open>k\<close> copies of its spec to a group
  that has it, and none to a group that has not. Enqueuing \<open>a\<close>, \<open>b\<close>, \<open>a\<close> against a
  single group with the specs of \<open>a\<close> and \<open>b\<close>, in either order, gives the single group
  \<open>[a, b, a]\<close>.
\<close>

theorem C1_effective_plan:
  "applyPlan (j\<lparr>agent := Some ag\<rparr>) =
     Returned (j\<lparr>agent := Some ag,
                 plan := Some (filter (\<lambda>g. g \<noteq> [])
                   (map (\<lambda>g. matched_specs g (enqueuedTasks j)) (agent_plan ag)))\<rparr>)
   \<and> [] \<notin> set (newExecutionPlan gs enq)
   \<and> length (filter (\<lambda>t. taskId t = e) (matched_specs g enq)) =
       (if e \<in> set (map taskId g) then count_list enq e else 0)
   \<and> newExecutionPlan [[spec_a, spec_b]] [''a'', ''b'', ''a''] = [[spec_a, spec_b, spec_a]]
   \<and> newExecutionPlan [[spec_b, spec_a]] [''a'', ''b'', ''a''] = [[spec_a, spec_b, spec_a]]"
proof -
  have p1: "applyPlan (j\<lparr>agent := Some ag\<rparr>) =
     Returned (j\<lparr>agent := Some ag,
                 plan := Some (filter (\<lambda>g. g \<noteq> [])
                   (map (\<lambda>g. matched_specs g (enqueuedTasks j)) (agent_plan ag)))\<rparr>)"
    by (simp add: applyPlan_def newExecutionPlan_eq)
  have p2: "[] \<notin> set (newExecutionPlan gs enq)"
    by (simp add: newExecutionPlan_eq)
  have p4: "newExecutionPlan [[spec_a, spec_b]] [''a'', ''b'', ''a''] = [[spec_a, spec_b, spec_a]]"
    by (simp add: newExecutionPlan_eq matched_specs_def List.map_filter_simps spec_a_def spec_b_def)
  have p5: "newExecutionPlan [[spec_b, spec_a]] [''a'', ''b'', ''a''] = [[spec_a, spec_b, spec_a]]"
    by (simp add: newExecutionPlan_eq matched_specs_def List.map_filter_simps spec_a_def spec_b_def)
  from p1 p2 count_matched_specs p4 p5 show ?thesis by blast
qed

text \<open>
  Claim C10. Every group of the effective plan comes from a group of the agent's plan, and
  every spec in it is the first spec of that group with its identifier, the one at the
  index \<open>indexOf\<close> returns: a spec of the group with the same identifier that is not that
  first one does not appear in the filtered group.
\<close>

theorem C10_first_index_match:
  "grp \<in> set (newExecutionPlan gs enq) \<Longrightarrow>
     \<exists>g\<in>set gs. grp = matched_specs g enq \<and>
       (\<forall>t\<in>set grp. find (\<lambda>s. taskId s = taskId t) g = Some t \<and>
          t = g ! nat (indexOf (map taskId g) (taskId t)) \<and>
          (\<forall>d. taskId d = taskId t \<longrightarrow> d \<noteq> t \<longrightarrow> d \<notin> set grp))"
proof -
  assume "grp \<in> set (newExecutionPlan gs enq)"
  then obtain g where g: "g \<in> set gs" and grp: "grp = matched_specs g enq"
    by (auto simp: newExecutionPlan_eq)
  have "find (\<lambda>s. taskId s = taskId t) g = Some t \<and>
          t = g ! nat (indexOf (map taskId g) (taskId t)) \<and>
          (\<forall>d. taskId d = taskId t \<longrightarrow> d \<noteq> t \<longrightarrow> d \<notin> set grp)" if t: "t \<in> set grp" for t
  proof -
    from t grp have f: "find (\<lambda>s. taskId s = taskId t) g = Some t"
      by (simp add: set_matched_specs)
    have "d \<notin> set grp" if "taskId d = taskId t" "d \<noteq> t" for d
    proof
      assume "d \<in> set grp"
      with grp have "find (\<lambda>s. taskId s = taskId d) g = Some d"
        by (simp add: set_matched_specs)
      with that f show False by simp
    qed
    with f find_nth_indexOf [OF f] show ?thesis by blast
  qed
  with g grp show ?thesis by blast
qed

text \<open>A group with two specs for \<open>a\<close>: only the first is selected.\<close>

theorem C10_first_index_match_witness:
  "[spec_a] \<in> set (newExecutionPlan [[spec_a, spec_a2, spec_b]] [''a''])
   \<and> (\<exists>g\<in>set [[spec_a, spec_a2, spec_b]].
         [spec_a] = matched_specs g [''a''] \<and>
         find (\<lambda>s. taskId s = taskId spec_a) g = Some spec_a \<and>
         spec_a2 \<notin> set [spec_a])"
proof -
  have h: "[spec_a] \<in> set (newExecutionPlan [[spec_a, spec_a2, spec_b]] [''a''])"
    by (simp add: newExecutionPlan_eq matched_specs_def List.map_filter_simps spec_a_def)
  have ne: "spec_a2 \<noteq> spec_a" "taskId spec_a2 = taskId spec_a"
    by (simp_all add: spec_a_def spec_a2_def)
  from C10_first_index_match [OF h] obtain g where
    g: "g \<in> set [[spec_a, spec_a2, spec_b]]" "[spec_a] = matched_specs g [''a'']" and
    a: "\<forall>t\<in>set [spec_a]. find (\<lambda>s. taskId s = taskId t) g = Some t \<and>
          t = g ! nat (indexOf (map taskId g) (taskId t)) \<and>
          (\<forall>d. taskId d = taskId t \<longrightarrow> d \<noteq> t \<longrightarrow> d \<notin> set [spec_a])"
    by blast
  from a have "find (\<lambda>s. taskId s = taskId spec_a) g = Some spec_a" by simp
  moreover from a ne have "spec_a2 \<notin> set [spec_a]" by simp
  ultimately show ?thesis using h g by blast
qed

section \<open>Properties of the execution block builder\<close>

lemma buildTask_Some:
  "taskDefinitions ag (taskId s) = Some ts \<Longrightarrow> buildTask (Some ag) s = Inr ts"
  by (simp add: buildTask_def registry_get_def)


lemma length_chain_objs: "length (chain_objs a t ts) = Suc (length ts)"
  by (induction ts arbitrary: a t) auto

lemma chain_objs_snoc:
  "(chain_objs a t0 ts0 @ [\<lparr>task = t, next_object = None\<rparr>])
     [length ts0 := ((chain_objs a t0 ts0 @ [\<lparr>task = t, next_object = None\<rparr>]) ! length ts0)
        \<lparr>next_object := Some (Suc (a + length ts0))\<rparr>]
   = chain_objs a t0 (ts0 @ [t])"
proof (induction ts0 arbitrary: a t0)
  case Nil
  show ?case by simp
next
  case (Cons t' ts0)
  from Cons [of "Suc a" t'] show ?case by simp
qed

lemma fold_task_plain:
  "selfSync s \<noteq> Some True \<Longrightarrow>
   fold (buildExecutionBlock_task s) ts (h, b, prev) =
     (h @ map (\<lambda>t. \<lparr>task = t, next_object = None\<rparr>) ts, b @ [length h ..< length h + length ts], prev)"
proof (induction ts arbitrary: h b)
  case Nil
  then show ?case by simp
next
  case (Cons t ts)
  have "[length h ..< length h + Suc (length ts)] = length h # [Suc (length h) ..< Suc (length h) + length ts]"
    using upt_conv_Cons [of "length h" "length h + Suc (length ts)"] by simp
  with Cons show ?case
    by (simp add: buildExecutionBlock_task_def Let_def)
qed

lemma fold_task_chain:
  "selfSync s = Some True \<Longrightarrow>
   fold (buildExecutionBlock_task s) ts
     (h @ chain_objs (length h) t0 ts0, b, Some (length h + length ts0)) =
     (h @ chain_objs (length h) t0 (ts0 @ ts), b, Some (length h + length ts0 + length ts))"
proof (induction ts arbitrary: ts0)
  case Nil
  then show ?case by simp
next
  case (Cons t ts)
  let ?S = "h @ chain_objs (length h) t0 ts0"
  let ?new = "\<lparr>task = t, next_object = None\<rparr>"
  have len: "length ?S = Suc (length h + length ts0)"
    by (simp add: length_chain_objs)
  have upd: "(?S @ [?new])[length h + length ts0 :=
               ((?S @ [?new]) ! (length h + length ts0))\<lparr>next_object := Some (length ?S)\<rparr>]
             = h @ chain_objs (length h) t0 (ts0 @ [t])"
    using chain_objs_snoc [of "length h" t0 ts0 t]
    by (simp add: list_update_append nth_append length_chain_objs)
  have step: "buildExecutionBlock_task s t (?S, b, Some (length h + length ts0)) =
      (h @ chain_objs (length h) t0 (ts0 @ [t]), b, Some (length h + length (ts0 @ [t])))"
    using Cons.prems upd len by (simp add: buildExecutionBlock_task_def Let_def)
  show ?case
    using Cons.IH [OF Cons.prems, of "ts0 @ [t]"] step by simp
qed

lemma fold_task:
  "fold (buildExecutionBlock_task s) ts (h, b, None) =
     (h @ objs_of (length h) s ts, b @ addrs_of (length h) s ts,
      snd (snd (fold (buildExecutionBlock_task s) ts (h, b, None))))"
proof (cases "selfSync s = Some True")
  case False
  then show ?thesis by (simp add: fold_task_plain objs_of_def addrs_of_def)
next
  case True
  show ?thesis
  proof (cases ts)
    case Nil
    with True show ?thesis by (simp add: objs_of_def addrs_of_def)
  next
    case (Cons t ts')
    have first: "buildExecutionBlock_task s t (h, b, None) =
        (h @ chain_objs (length h) t [], b @ [length h], Some (length h + length ([]::'a list)))"
      using True by (simp add: buildExecutionBlock_task_def Let_def)
    show ?thesis
      using True Cons first fold_task_chain [OF True, of ts' h t "[]" "b @ [length h]"]
      by (simp add: objs_of_def addrs_of_def)
  qed
qed

lemma length_objs_of: "length (objs_of a s ts) = length ts"
  by (auto simp: objs_of_def length_chain_objs split: list.splits)

lemma read_chain:
  "length ts < fuel \<Longrightarrow>
   read_unit (h @ chain_objs (length h) t ts @ h2) fuel (length h) = Some (chain_of t ts)"
proof (induction ts arbitrary: h t fuel)
  case Nil
  then obtain f where "fuel = Suc f" by (cases fuel) auto
  then show ?case by simp
next
  case (Cons t' ts)
  then obtain f where f: "fuel = Suc f" "length ts < f" by (cases fuel) auto
  let ?o = "\<lparr>task = t, next_object = Some (Suc (length h))\<rparr>"
  have "read_unit ((h @ [?o]) @ chain_objs (length (h @ [?o])) t' ts @ h2) f (length (h @ [?o]))
          = Some (chain_of t' ts)"
    using Cons.IH [OF f(2)] by blast
  then have "read_unit (h @ ?o # chain_objs (Suc (length h)) t' ts @ h2) f (Suc (length h))
          = Some (chain_of t' ts)"
    by simp
  with f show ?case by simp
qed

lemma read_plain:
  "i < length ts \<Longrightarrow>
   read_unit (h @ map (\<lambda>t. \<lparr>task = t, next_object = None\<rparr>) ts @ h2) (Suc fuel) (length h + i)
     = Some (ExecutionUnit (ts ! i) None)"
  by (simp add: nth_append)

lemma read_heads:
  "length ts \<le> fuel \<Longrightarrow>
   map (read_unit (h @ objs_of (length h) s ts @ h2) fuel) (addrs_of (length h) s ts)
     = map Some (heads_of s ts)"
proof (cases "selfSync s = Some True")
  case True
  assume "length ts \<le> fuel"
  with True show ?thesis
    by (cases ts) (simp_all add: objs_of_def addrs_of_def heads_of_def read_chain)
next
  case False
  assume le: "length ts \<le> fuel"
  show ?thesis
  proof (cases ts)
    case Nil
    with False show ?thesis by (simp add: objs_of_def addrs_of_def heads_of_def)
  next
    case (Cons t ts')
    with le obtain f where f: "fuel = Suc f" by (cases fuel) auto
    have "map (read_unit (h @ map (\<lambda>t. \<lparr>task = t, next_object = None\<rparr>) ts @ h2) (Suc f))
            (map (\<lambda>i. length h + i) [0 ..< length ts])
          = map (\<lambda>i. Some (ExecutionUnit (ts ! i) None)) [0 ..< length ts]"
      by (simp add: read_plain del: read_unit.simps)
    moreover have "map (\<lambda>i. length h + i) [0 ..< length ts] = [length h ..< length h + length ts]"
      by (rule nth_equalityI) simp_all
    moreover have "map (\<lambda>i. Some (ExecutionUnit (ts ! i) None)) [0 ..< length ts]
          = map Some (map (\<lambda>t. ExecutionUnit t None) ts)"
      by (rule nth_equalityI) simp_all
    ultimately show ?thesis
      using False f by (simp add: objs_of_def addrs_of_def heads_of_def)
  qed
qed

lemma buildExecutionBlock_specs_defined:
  "\<forall>s\<in>set g. taskDefinitions ag (taskId s) \<noteq> None \<Longrightarrow>
   \<exists>h2 heads.
     buildExecutionBlock_specs (Some ag) g (h, b) = Returned (h @ h2, b @ heads) \<and>
     (\<forall>hx fuel. length h2 \<le> fuel \<longrightarrow>
        map (read_unit (h @ h2 @ hx) fuel) heads =
          map Some (concat (map (\<lambda>s. heads_of s (the (taskDefinitions ag (taskId s)))) g)))"
proof (induction g arbitrary: h b)
  case Nil
  then show ?case by simp
next
  case (Cons s rest)
  from Cons.prems obtain ts where ts: "taskDefinitions ag (taskId s) = Some ts"
    by auto
  let ?O = "objs_of (length h) s ts"
  let ?A = "addrs_of (length h) s ts"
  from Cons.prems have "\<forall>s\<in>set rest. taskDefinitions ag (taskId s) \<noteq> None" by simp
  from Cons.IH [OF this, of "h @ ?O" "b @ ?A"] obtain h2 heads where
    res: "buildExecutionBlock_specs (Some ag) rest (h @ ?O, b @ ?A) = Returned ((h @ ?O) @ h2, (b @ ?A) @ heads)"
    and rd: "\<forall>hx fuel. length h2 \<le> fuel \<longrightarrow>
        map (read_unit ((h @ ?O) @ h2 @ hx) fuel) heads =
          map Some (concat (map (\<lambda>s. heads_of s (the (taskDefinitions ag (taskId s)))) rest))"
    by blast
  obtain p where fd: "fold (buildExecutionBlock_task s) ts (h, b, None) = (h @ ?O, b @ ?A, p)"
    using fold_task [of s ts h b] by blast
  have run: "buildExecutionBlock_specs (Some ag) (s # rest) (h, b) = Returned (h @ (?O @ h2), b @ (?A @ heads))"
    using ts res fd by (simp add: buildTask_Some Let_def)
  have "map (read_unit (h @ (?O @ h2) @ hx) fuel) (?A @ heads) =
          map Some (concat (map (\<lambda>s. heads_of s (the (taskDefinitions ag (taskId s)))) (s # rest)))"
    if le: "length (?O @ h2) \<le> fuel" for hx fuel
  proof -
    from le have l1: "length ts \<le> fuel" and l2: "length h2 \<le> fuel"
      by (simp_all add: length_objs_of)
    have a: "map (read_unit (h @ ?O @ (h2 @ hx)) fuel) ?A = map Some (heads_of s ts)"
      using read_heads [OF l1] by blast
    have b: "map (read_unit ((h @ ?O) @ h2 @ hx) fuel) heads =
          map Some (concat (map (\<lambda>s. heads_of s (the (taskDefinitions ag (taskId s)))) rest))"
      using rd l2 by blast
    from a b ts show ?thesis by simp
  qed
  with run show ?case by blast
qed

text \<open>
  Claim C2, as amended. When every task spec of the group has a task definition, the call
  of \<open>_buildExecutionBlock\<close> on a job with that agent returns, leaves the objects
  already in the store as they were, and the units read from the heads of the block, in
  order, are those of the task specs in order: for a spec whose \<open>selfSync\<close> is false or
  unset one unit per instance, each with \<open>next = null\<close>; for a spec whose \<open>selfSync\<close> is
  true and whose builder returns at least one instance a single head, from which the
  instances are chained in order through \<open>next\<close>, the last with \<open>next = null\<close>; and no
  head at all for a self-synchronous spec whose builder returns no instance.
\<close>

theorem C2_execution_block:
  assumes "\<forall>s\<in>set g. taskDefinitions ag (taskId s) \<noteq> None"
  shows "(\<exists>h' block.
      buildExecutionBlock (Some ag) h (Some g) = Returned (h', block) \<and>
      take (length h) h' = h \<and>
      map (read_unit h' (length h')) block =
        map Some (concat (map (\<lambda>s. heads_of s (the (taskDefinitions ag (taskId s)))) g)))
    \<and> (\<forall>s ts. selfSync s \<noteq> Some True \<longrightarrow>
          heads_of s ts = map (\<lambda>t. ExecutionUnit t None) (ts :: 'a list))
    \<and> (\<forall>s t ts. selfSync s = Some True \<longrightarrow> heads_of s (t # ts) = [chain_of (t :: 'a) ts])
    \<and> (\<forall>s. selfSync s = Some True \<longrightarrow> heads_of s ([] :: 'a list) = [])
    \<and> chain_of (t1 :: 'a) [t2, t3] =
          ExecutionUnit t1 (Some (ExecutionUnit t2 (Some (ExecutionUnit t3 None))))"
proof -
  from buildExecutionBlock_specs_defined [OF assms, of h "[]"] obtain h2 heads where
    res: "buildExecutionBlock_specs (Some ag) g (h, []) = Returned (h @ h2, [] @ heads)" and
    rd: "\<forall>hx fuel. length h2 \<le> fuel \<longrightarrow>
        map (read_unit (h @ h2 @ hx) fuel) heads =
          map Some (concat (map (\<lambda>s. heads_of s (the (taskDefinitions ag (taskId s)))) g))"
    by blast
  have "length h2 \<le> length (h @ h2)" by simp
  with rd have "map (read_unit (h @ h2 @ []) (length (h @ h2))) heads =
          map Some (concat (map (\<lambda>s. heads_of s (the (taskDefinitions ag (taskId s)))) g))"
    by blast
  with res have "\<exists>h' block.
      buildExecutionBlock (Some ag) h (Some g) = Returned (h', block) \<and>
      take (length h) h' = h \<and>
      map (read_unit h' (length h')) block =
        map Some (concat (map (\<lambda>s. heads_of s (the (taskDefinitions ag (taskId s)))) g))"
    by (simp add: buildExecutionBlock_def)
  then show ?thesis by (simp add: heads_of_def)
qed

text \<open>
  The group \<open>[b, a]\<close> with three instances each: one chained head for \<open>b\<close>, three heads
  for \<open>a\<close>.
\<close>

theorem C2_execution_block_witness:
  "\<exists>h' block.
      buildExecutionBlock (Some agent_ab) [] (Some [spec_b, spec_a]) = Returned (h', block) \<and>
      map (read_unit h' (length h')) block =
        [Some (ExecutionUnit 4 (Some (ExecutionUnit 5 (Some (ExecutionUnit 6 None))))),
         Some (ExecutionUnit 1 None), Some (ExecutionUnit 2 None), Some (ExecutionUnit 3 None)]"
proof -
  have d: "\<forall>s\<in>set [spec_b, spec_a]. taskDefinitions agent_ab (taskId s) \<noteq> None"
    by (simp add: agent_ab_def spec_a_def spec_b_def)
  have e: "map Some (concat (map (\<lambda>s. heads_of s (the (taskDefinitions agent_ab (taskId s))))
              [spec_b, spec_a])) =
        [Some (ExecutionUnit 4 (Some (ExecutionUnit 5 (Some (ExecutionUnit 6 None))))),
         Some (ExecutionUnit 1 None), Some (ExecutionUnit 2 None), Some (ExecutionUnit 3 None)]"
    by (simp add: agent_ab_def spec_a_def spec_b_def heads_of_def)
  from C2_execution_block [OF d, of "[]"] e show ?thesis by auto
qed

text \<open>
  A self-synchronous spec whose builder returns no instance contributes no head: the block
  does not have exactly one head for it.
\<close>

theorem C2_counterexample:
  "selfSync spec_b = Some True
   \<and> taskDefinitions agent_b_none (taskId spec_b) = Some []
   \<and> buildExecutionBlock (Some agent_b_none) [] (Some [spec_b]) = Returned ([], [])
   \<and> length (snd (state_of (buildExecutionBlock (Some agent_b_none) [] (Some [spec_b])))) \<noteq> 1"
  by (simp add: buildExecutionBlock_def buildTask_def registry_get_def agent_b_none_def
      spec_b_def)

section \<open>Unknown identifiers\<close>






section \<open>Properties of the lifecycle\<close>

lemma buildExecutionBlock_prototype:
  "buildExecutionBlock Job_prototype_agent h og =
     (case og of
        None \<Rightarrow> Returned (h, [])
      | Some [] \<Rightarrow> Returned (h, [])
      | Some (s # rest) \<Rightarrow> Thrown TypeError (h, []))"
  by (simp add: buildExecutionBlock_def Job_prototype_agent_def buildTask_def
      split: option.splits list.splits)

lemma applyNextExecutionBlock_cases:
  "applyNextExecutionBlock j =
     (case plan j of
        None \<Rightarrow> Thrown TypeError (j\<lparr>planIdx := planIdx j + 1\<rparr>)
      | Some p \<Rightarrow>
          (case nth_opt p (planIdx j + 1) of
             Some (s # rest) \<Rightarrow> Thrown TypeError (j\<lparr>planIdx := planIdx j + 1\<rparr>)
           | _ \<Rightarrow> Returned (j\<lparr>planIdx := planIdx j + 1,
                               executionQueue := executionQueue j @ [[]]\<rparr>)))"
  by (simp add: applyNextExecutionBlock_def buildExecutionBlock_prototype Let_def
      emit_eqApplyBlock_def onEqApplyBlock_def
      split: option.splits list.splits)

lemma job1_eq:
  "job1 = \<lparr>started = False, jobStartListener = True, planIdx = -1,
                  executionQueueIdx = -1, job_params = Map.empty,
                  job_params_proto = None, enqueuedTasks = [],
                  plan = None, executionQueue = [], store = [], agent = Some agent_ab,
                  uid = JStr ''job1''\<rparr>"
  by (simp add: job1_def Job_def setUid_def setEventListeners_def)

lemma job1a_eq:
  "job1a = \<lparr>started = False, jobStartListener = True, planIdx = -1,
                  executionQueueIdx = -1, job_params = Map.empty,
                  job_params_proto = None, enqueuedTasks = [''a''],
                  plan = None, executionQueue = [], store = [], agent = Some agent_ab,
                  uid = JStr ''job1''\<rparr>"
  by (simp add: job1a_def job1_eq enqueue_def enqueue_method_def)

lemma plan_agent_ab_a: "newExecutionPlan (agent_plan agent_ab) [''a''] = [[spec_a]]"
  by (simp add: newExecutionPlan_eq matched_specs_def List.map_filter_simps agent_ab_def
        spec_a_def spec_b_def)

lemma plan_agent_ab_none: "newExecutionPlan (agent_plan agent_ab) [] = []"
  by (simp add: newExecutionPlan_eq matched_specs_def List.map_filter_simps agent_ab_def)

lemma run_job1a:
  "run Returned job1a = Thrown TypeError
     \<lparr>started = True, jobStartListener = False, planIdx = 0,
                  executionQueueIdx = -1, job_params = Map.empty,
                  job_params_proto = None, enqueuedTasks = [''a''],
                  plan = Some [[spec_a]], executionQueue = [], store = [], agent = Some agent_ab,
                  uid = JStr ''job1''\<rparr>"
  by (simp add: job1a_eq run_def emit_jobStart_def onJobStart_def prepareRun_def
      applyAgentSetup_def applyPlan_def applyNextExecutionBlock_cases plan_agent_ab_a nth_opt_def)

lemma run_job1:
  "run Returned job1 = Returned
     \<lparr>started = True, jobStartListener = False, planIdx = 0,
                  executionQueueIdx = -1, job_params = Map.empty,
                  job_params_proto = None, enqueuedTasks = [],
                  plan = Some [], executionQueue = [[]], store = [], agent = Some agent_ab,
                  uid = JStr ''job1''\<rparr>"
  by (simp add: job1_eq run_def emit_jobStart_def onJobStart_def prepareRun_def
      applyAgentSetup_def applyPlan_def applyNextExecutionBlock_cases plan_agent_ab_none nth_opt_def)

lemma onJobStart_cases:
  "onJobStart hook j =
     (case agent j of
        None \<Rightarrow> Thrown TypeError j
      | Some ag \<Rightarrow>
          (case hook ag of
             Thrown e ag' \<Rightarrow> Thrown e (j\<lparr>agent := Some ag'\<rparr>)
           | Returned ag' \<Rightarrow>
               applyNextExecutionBlock
                 (j\<lparr>agent := Some ag',
                    plan := Some (newExecutionPlan (agent_plan ag') (enqueuedTasks j))\<rparr>)))"
  by (simp add: onJobStart_def prepareRun_def applyAgentSetup_def applyPlan_def
      split: option.splits outcome.splits)

lemma run_started: "started j \<Longrightarrow> run hook j = Returned j"
  by (simp add: run_def)

lemma started_applyNextExecutionBlock:
  "started (state_of (applyNextExecutionBlock j)) = started j"
  by (simp add: applyNextExecutionBlock_cases split: option.splits list.splits)

lemma started_onJobStart: "started (state_of (onJobStart hook j)) = started j"
  by (simp add: onJobStart_cases started_applyNextExecutionBlock
      split: option.splits outcome.splits)

lemma started_run: "started (state_of (run hook j))"
  by (simp add: run_def emit_jobStart_def started_onJobStart)

text \<open>
  Claim C3, at an input where the code departs from it. A job for \<open>agent_ab\<close> with \<open>a\<close>
  enqueued: the first \<open>run()\<close> sets \<open>started\<close>, prepares the run and advances the cursor,
  and then throws a \<open>TypeError\<close>, because the block is built by a call on \<open>Job.prototype\<close>,
  which has no agent; no block is appended to the queue. The second \<open>run()\<close> does nothing,
  as claimed. The same group, built on the job itself, gives a block of three heads.
\<close>

theorem C3_run_failing_input:
  "run Returned job1a = Thrown TypeError job1a_run \<and>
   started job1a_run \<and> plan job1a_run = Some [[spec_a]] \<and> planIdx job1a_run = 0 \<and>
   executionQueue job1 = [] \<and> executionQueue job1a_run = [] \<and>
   run Returned job1a_run = Returned job1a_run \<and>
   buildExecutionBlock (agent job1a_run) (store job1a_run)
       (nth_opt [[spec_a]] (planIdx job1a_run)) =
     Returned ([\<lparr>task = 1, next_object = None\<rparr>, \<lparr>task = 2, next_object = None\<rparr>,
                \<lparr>task = 3, next_object = None\<rparr>], [0, 1, 2])"
proof -
  have r: "run Returned job1a = Thrown TypeError job1a_run"
    by (simp add: job1a_run_def run_job1a)
  have f: "started job1a_run" "plan job1a_run = Some [[spec_a]]" "planIdx job1a_run = 0"
    "executionQueue job1a_run = []" "agent job1a_run = Some agent_ab" "store job1a_run = []"
    by (simp_all add: job1a_run_def run_job1a)
  have q: "executionQueue job1 = []"
    by (simp add: job1_eq)
  have again: "run Returned job1a_run = Returned job1a_run"
    using f(1) by (rule run_started)
  have b: "buildExecutionBlock (Some agent_ab) [] (nth_opt [[spec_a]] 0) =
     Returned ([\<lparr>task = 1, next_object = None\<rparr>, \<lparr>task = 2, next_object = None\<rparr>,
                \<lparr>task = 3, next_object = None\<rparr>], [0, 1, 2])"
    by (simp add: nth_opt_def buildExecutionBlock_def buildTask_def registry_get_def agent_ab_def
        spec_a_def buildExecutionBlock_task_def)
  from r f q again b show ?thesis by simp
qed

text \<open>
  Claim C5, as amended. When the cursor is at or past the last group of the effective plan,
  \<open>_applyNextExecutionBlock\<close> is not rejected: it returns, the cursor is incremented beyond
  the last valid index, and an empty block is appended to the queue.
\<close>

theorem C5_past_the_end:
  "plan j = Some p \<Longrightarrow> int (length p) \<le> planIdx j + 1 \<Longrightarrow>
     applyNextExecutionBlock j =
       Returned (j\<lparr>planIdx := planIdx j + 1, executionQueue := executionQueue j @ [[]]\<rparr>)"
  by (simp add: applyNextExecutionBlock_cases nth_opt_def)

text \<open>After the run of a job with nothing enqueued, a further request appends a second empty block.\<close>

theorem C5_past_the_end_witness:
  "plan job1_run = Some [] \<and> int (length ([] :: planGroup list)) \<le> planIdx job1_run + 1 \<and>
   planIdx job1_run = 0 \<and> executionQueue job1_run = [[]] \<and>
   applyNextExecutionBlock job1_run =
     Returned (job1_run\<lparr>planIdx := 1, executionQueue := [[], []]\<rparr>)"
proof -
  have a: "plan job1_run = Some []" and b: "int (length ([] :: planGroup list)) \<le> planIdx job1_run + 1"
    and c: "planIdx job1_run = 0" "executionQueue job1_run = [[]]"
    by (simp_all add: job1_run_def run_job1)
  from C5_past_the_end [OF a b] a b c show ?thesis by simp
qed

text \<open>
  With nothing enqueued the effective plan is empty: \<open>run()\<close> returns, an empty block has
  been appended to the queue, and the cursor, \<open>0\<close>, exceeds the last valid index, \<open>-1\<close>.
\<close>

theorem C5_counterexample:
  "run Returned job1 = Returned job1_run \<and> plan job1_run = Some [] \<and>
   executionQueue job1 = [] \<and> executionQueue job1_run = [[]] \<and>
   planIdx job1_run = 0 \<and> \<not> planIdx job1_run \<le> int (length ([] :: planGroup list)) - 1"
proof -
  have r: "run Returned job1 = Returned job1_run"
    by (simp add: job1_run_def run_job1)
  have f: "plan job1_run = Some []" "executionQueue job1_run = [[]]" "planIdx job1_run = 0"
    by (simp_all add: job1_run_def run_job1)
  have q: "executionQueue job1 = []"
    by (simp add: job1_eq)
  from r f q show ?thesis by simp
qed

lemma planIdx_run:
  "planIdx (state_of (run hook j)) = planIdx j \<or> planIdx (state_of (run hook j)) = planIdx j + 1"
  by (simp add: run_def emit_jobStart_def onJobStart_cases applyNextExecutionBlock_cases
      split: option.splits outcome.splits list.splits)

lemma run_begun_prepared:
  assumes "planIdx (state_of (run hook j)) \<noteq> planIdx j"
  shows "\<exists>ag ag'. agent j = Some ag \<and> hook ag = Returned ag' \<and>
            prepareRun hook (j\<lparr>started := True, jobStartListener := False\<rparr>) =
              Returned (j\<lparr>started := True, jobStartListener := False, agent := Some ag',
                          plan := Some (newExecutionPlan (agent_plan ag') (enqueuedTasks j))\<rparr>) \<and>
            agent (state_of (run hook j)) = Some ag' \<and>
            plan (state_of (run hook j)) =
              Some (newExecutionPlan (agent_plan ag') (enqueuedTasks j))"
proof -
  from assms have ns: "\<not> started j" and l: "jobStartListener j"
    by (auto simp: run_def emit_jobStart_def split: if_splits)
  let ?j = "j\<lparr>started := True, jobStartListener := False\<rparr>"
  from assms ns l have s: "planIdx (state_of (onJobStart hook ?j)) \<noteq> planIdx j"
    by (simp add: run_def emit_jobStart_def)
  then obtain ag where ag: "agent j = Some ag"
    by (cases "agent j") (auto simp: onJobStart_cases)
  with s obtain ag' where ag': "hook ag = Returned ag'"
    by (cases "hook ag") (auto simp: onJobStart_cases)
  have p: "prepareRun hook ?j =
      Returned (?j\<lparr>agent := Some ag',
                  plan := Some (newExecutionPlan (agent_plan ag') (enqueuedTasks j))\<rparr>)"
    using ag ag' by (simp add: prepareRun_def applyAgentSetup_def applyPlan_def)
  have r: "run hook j = applyNextExecutionBlock (?j\<lparr>agent := Some ag',
                  plan := Some (newExecutionPlan (agent_plan ag') (enqueuedTasks j))\<rparr>)"
    using ns l ag ag' by (simp add: run_def emit_jobStart_def onJobStart_cases)
  have "agent (state_of (run hook j)) = Some ag'"
    and "plan (state_of (run hook j)) = Some (newExecutionPlan (agent_plan ag') (enqueuedTasks j))"
    unfolding r by (simp_all add: applyNextExecutionBlock_cases split: option.splits list.splits)
  with ag ag' p show ?thesis by simp
qed

lemma queue_run:
  "executionQueue (state_of (run hook j)) \<noteq> executionQueue j \<Longrightarrow>
     planIdx (state_of (run hook j)) = planIdx j + 1"
  by (auto simp: run_def emit_jobStart_def onJobStart_cases applyNextExecutionBlock_cases
      split: option.splits outcome.splits list.splits if_splits)

lemma applyNextExecutionBlock_step:
  "planIdx (state_of (applyNextExecutionBlock j)) = planIdx j + 1"
  "has_returned (applyNextExecutionBlock j) \<Longrightarrow>
     executionQueue (state_of (applyNextExecutionBlock j)) = executionQueue j @ [[]]"
  "\<not> has_returned (applyNextExecutionBlock j) \<Longrightarrow>
     executionQueue (state_of (applyNextExecutionBlock j)) = executionQueue j"
  by (auto simp: applyNextExecutionBlock_cases split: option.splits list.splits)

lemma applyNextExecutionBlock_group:
  "plan j = Some p \<Longrightarrow>
     (case buildExecutionBlock Job_prototype_agent (store j) (nth_opt p (planIdx j + 1)) of
        Thrown e st \<Rightarrow> \<not> has_returned (applyNextExecutionBlock j)
      | Returned st \<Rightarrow> applyNextExecutionBlock j =
          Returned (j\<lparr>planIdx := planIdx j + 1, store := fst st,
                      executionQueue := executionQueue j @ [snd st]\<rparr>))"
  by (simp add: applyNextExecutionBlock_def emit_eqApplyBlock_def onEqApplyBlock_def Let_def
      split: outcome.splits)

lemma Job_fresh:
  "Job u a = Returned j0 \<Longrightarrow>
     planIdx j0 = -1 \<and> executionQueue j0 = [] \<and> plan j0 = None \<and> \<not> started j0"
  by (auto simp: Job_def setUid_def setEventListeners_def Let_def split: if_splits)

text \<open>
  Claim C6. A run advances the cursor by at most one, so it begins at most one block. When
  it begins one, preparation has returned: the agent's setup hook has returned, and the
  plan the block is taken from is the effective plan computed from the agent as the hook
  left it; the queue changes only then. Each production of a block increments the cursor
  by exactly one and builds from the group at the new cursor; when it returns the queue is
  the old queue with one block appended, when it throws the queue is unchanged. A new job
  has the cursor at \<open>-1\<close> and an empty queue, and a production that returns keeps the
  queue one longer than the cursor: when the block of group \<open>i + 1\<close> is begun after
  productions that returned, the blocks of the groups up to \<open>i\<close> are in the queue.
\<close>

theorem C6_ordering:
  "(planIdx (state_of (run hook j)) = planIdx j \<or>
    planIdx (state_of (run hook j)) = planIdx j + 1)
   \<and> (planIdx (state_of (run hook j)) \<noteq> planIdx j \<longrightarrow>
        (\<exists>ag ag'. agent j = Some ag \<and> hook ag = Returned ag' \<and>
            prepareRun hook (j\<lparr>started := True, jobStartListener := False\<rparr>) =
              Returned (j\<lparr>started := True, jobStartListener := False, agent := Some ag',
                          plan := Some (newExecutionPlan (agent_plan ag') (enqueuedTasks j))\<rparr>) \<and>
            agent (state_of (run hook j)) = Some ag' \<and>
            plan (state_of (run hook j)) =
              Some (newExecutionPlan (agent_plan ag') (enqueuedTasks j))))
   \<and> (executionQueue (state_of (run hook j)) \<noteq> executionQueue j \<longrightarrow>
        planIdx (state_of (run hook j)) = planIdx j + 1)
   \<and> planIdx (state_of (applyNextExecutionBlock k)) = planIdx k + 1
   \<and> (plan k = Some p \<longrightarrow>
        (case buildExecutionBlock Job_prototype_agent (store k) (nth_opt p (planIdx k + 1)) of
           Thrown e st \<Rightarrow> \<not> has_returned (applyNextExecutionBlock k)
         | Returned st \<Rightarrow> applyNextExecutionBlock k =
             Returned (k\<lparr>planIdx := planIdx k + 1, store := fst st,
                         executionQueue := executionQueue k @ [snd st]\<rparr>)))
   \<and> (has_returned (applyNextExecutionBlock k) \<longrightarrow>
        (\<exists>b. executionQueue (state_of (applyNextExecutionBlock k)) = executionQueue k @ [b]) \<and>
        (int (length (executionQueue k)) = planIdx k + 1 \<longrightarrow>
           int (length (executionQueue (state_of (applyNextExecutionBlock k)))) =
             planIdx (state_of (applyNextExecutionBlock k)) + 1))
   \<and> (\<not> has_returned (applyNextExecutionBlock k) \<longrightarrow>
        executionQueue (state_of (applyNextExecutionBlock k)) = executionQueue k)
   \<and> (Job u a = Returned j0 \<longrightarrow>
        planIdx j0 = -1 \<and> executionQueue j0 = [] \<and> plan j0 = None \<and> \<not> started j0)"
proof (intro conjI impI)
  show "planIdx (state_of (run hook j)) = planIdx j \<or>
    planIdx (state_of (run hook j)) = planIdx j + 1"
    by (rule planIdx_run)
next
  assume "planIdx (state_of (run hook j)) \<noteq> planIdx j"
  then show "\<exists>ag ag'. agent j = Some ag \<and> hook ag = Returned ag' \<and>
            prepareRun hook (j\<lparr>started := True, jobStartListener := False\<rparr>) =
              Returned (j\<lparr>started := True, jobStartListener := False, agent := Some ag',
                          plan := Some (newExecutionPlan (agent_plan ag') (enqueuedTasks j))\<rparr>) \<and>
            agent (state_of (run hook j)) = Some ag' \<and>
            plan (state_of (run hook j)) =
              Some (newExecutionPlan (agent_plan ag') (enqueuedTasks j))"
    by (rule run_begun_prepared)
next
  assume "executionQueue (state_of (run hook j)) \<noteq> executionQueue j"
  then show "planIdx (state_of (run hook j)) = planIdx j + 1"
    by (rule queue_run)
next
  show "planIdx (state_of (applyNextExecutionBlock k)) = planIdx k + 1"
    by (rule applyNextExecutionBlock_step(1))
next
  assume "plan k = Some p"
  then show "case buildExecutionBlock Job_prototype_agent (store k) (nth_opt p (planIdx k + 1)) of
           Thrown e st \<Rightarrow> \<not> has_returned (applyNextExecutionBlock k)
         | Returned st \<Rightarrow> applyNextExecutionBlock k =
             Returned (k\<lparr>planIdx := planIdx k + 1, store := fst st,
                         executionQueue := executionQueue k @ [snd st]\<rparr>)"
    by (rule applyNextExecutionBlock_group)
next
  assume "has_returned (applyNextExecutionBlock k)"
  then show "\<exists>b. executionQueue (state_of (applyNextExecutionBlock k)) = executionQueue k @ [b]"
    by (simp add: applyNextExecutionBlock_step(2))
next
  assume "has_returned (applyNextExecutionBlock k)"
    and "int (length (executionQueue k)) = planIdx k + 1"
  then show "int (length (executionQueue (state_of (applyNextExecutionBlock k)))) =
             planIdx (state_of (applyNextExecutionBlock k)) + 1"
    by (simp add: applyNextExecutionBlock_step)
next
  assume "\<not> has_returned (applyNextExecutionBlock k)"
  then show "executionQueue (state_of (applyNextExecutionBlock k)) = executionQueue k"
    by (rule applyNextExecutionBlock_step(3))
next
  assume "Job u a = Returned j0"
  from Job_fresh [OF this]
  show "planIdx j0 = -1" "executionQueue j0 = []" "plan j0 = None" "\<not> started j0"
    by simp_all
qed

lemma job1_prepared_eq:
  "job1_prepared = job1\<lparr>plan := Some []\<rparr>"
  by (simp add: job1_prepared_def job1_eq prepareRun_def applyAgentSetup_def applyPlan_def
      plan_agent_ab_none)

lemma job1a_prepared_eq:
  "job1a_prepared = job1a\<lparr>plan := Some [[spec_a]]\<rparr>"
  by (simp add: job1a_prepared_def job1a_eq prepareRun_def applyAgentSetup_def applyPlan_def
      plan_agent_ab_a)

text \<open>
  The run of the job with \<open>a\<close> enqueued begins a block, after preparation; the job with
  nothing enqueued produces a block, and the one with \<open>a\<close> enqueued throws.
\<close>

theorem C6_ordering_witness:
  "planIdx job1a = -1 \<and> planIdx (state_of (run Returned job1a)) = 0
   \<and> (\<exists>ag'. agent job1a = Some agent_ab \<and> Returned agent_ab = Returned ag' \<and>
         plan (state_of (run Returned job1a)) =
           Some (newExecutionPlan (agent_plan ag') (enqueuedTasks job1a)))
   \<and> Job (JStr ''job1'') (Some agent_ab) = Returned job1
   \<and> plan job1_prepared = Some []
   \<and> int (length (executionQueue job1_prepared)) = planIdx job1_prepared + 1
   \<and> has_returned (applyNextExecutionBlock job1_prepared)
   \<and> int (length (executionQueue (state_of (applyNextExecutionBlock job1_prepared)))) =
       planIdx (state_of (applyNextExecutionBlock job1_prepared)) + 1
   \<and> \<not> has_returned (applyNextExecutionBlock job1a_prepared)
   \<and> executionQueue (state_of (applyNextExecutionBlock job1a_prepared)) =
       executionQueue job1a_prepared
   \<and> executionQueue (state_of (run Returned job1)) = [[]]
   \<and> planIdx (state_of (run Returned job1)) = planIdx job1 + 1"
proof -
  have q: "executionQueue (state_of (run Returned job1)) = [[]]" "executionQueue job1 = []"
    by (simp_all add: run_job1) (simp add: job1_eq)
  then have qn: "executionQueue (state_of (run Returned job1)) \<noteq> executionQueue job1" by simp
  from C6_ordering [where hook = Returned and j = job1 and k = job1_prepared and p = "[]"
      and u = "JStr ''job1''" and a = "Some agent_ab" and ?j0.0 = job1] qn
  have w4: "planIdx (state_of (run Returned job1)) = planIdx job1 + 1"
    by blast
  have a: "planIdx job1a = -1" "planIdx (state_of (run Returned job1a)) = 0"
    "agent job1a = Some agent_ab"
    by (simp_all add: run_job1a) (simp_all add: job1a_eq)
  then have ne: "planIdx (state_of (run Returned job1a)) \<noteq> planIdx job1a" by simp
  have c: "Job (JStr ''job1'') (Some agent_ab) = Returned job1"
    by (simp add: job1_eq Job_def setUid_def setEventListeners_def)
  have p: "plan job1_prepared = Some []"
    "int (length (executionQueue job1_prepared)) = planIdx job1_prepared + 1"
    by (simp_all add: job1_prepared_eq job1_eq)
  have r: "has_returned (applyNextExecutionBlock job1_prepared)"
    by (simp add: job1_prepared_eq job1_eq applyNextExecutionBlock_cases nth_opt_def)
  have t: "\<not> has_returned (applyNextExecutionBlock job1a_prepared)"
    by (simp add: job1a_prepared_eq job1a_eq applyNextExecutionBlock_cases nth_opt_def)
  from C6_ordering [where hook = Returned and j = job1a and k = job1_prepared and p = "[]"
      and u = "JStr ''job1''" and a = "Some agent_ab" and ?j0.0 = job1] ne p r
  have w1: "(\<exists>ag'. agent job1a = Some agent_ab \<and> Returned agent_ab = Returned ag' \<and>
         plan (state_of (run Returned job1a)) =
           Some (newExecutionPlan (agent_plan ag') (enqueuedTasks job1a)))"
    and w2: "int (length (executionQueue (state_of (applyNextExecutionBlock job1_prepared)))) =
       planIdx (state_of (applyNextExecutionBlock job1_prepared)) + 1"
    using a(3) by auto
  from C6_ordering [where hook = Returned and j = job1a and k = job1a_prepared
      and p = "[[spec_a]]" and u = "JStr ''job1''" and a = "Some agent_ab" and ?j0.0 = job1] t
  have w3: "executionQueue (state_of (applyNextExecutionBlock job1a_prepared)) =
       executionQueue job1a_prepared"
    by blast
  from a c p r t w1 w2 w3 w4 q show ?thesis by simp
qed

section \<open>Properties of construction, parameters and enqueuing\<close>

lemma uid_applyNextExecutionBlock: "uid (state_of (applyNextExecutionBlock j)) = uid j"
  by (simp add: applyNextExecutionBlock_cases split: option.splits list.splits)

lemma uid_onJobStart: "uid (state_of (onJobStart hook j)) = uid j"
  by (simp add: onJobStart_cases uid_applyNextExecutionBlock split: option.splits outcome.splits)

lemma uid_run: "uid (state_of (run hook j)) = uid j"
  by (simp add: run_def emit_jobStart_def uid_onJobStart)

lemma uid_prepareRun: "uid (state_of (prepareRun hook j)) = uid j"
  by (auto simp: prepareRun_def applyAgentSetup_def applyPlan_def
      split: option.splits outcome.splits)

lemma setUid_cases:
  "setUid j v = (case v of
       JStr s \<Rightarrow> (if s = [] then Thrown (Error ''Job uid must be a valid string'') j
                  else Returned (j\<lparr>uid := JStr s\<rparr>))
     | _ \<Rightarrow> Thrown (Error ''Job uid must be a valid string'') j)"
  by (cases v) (auto simp: setUid_def)

text \<open>
  Claim C7, as amended. A \<open>uid\<close> argument that is given and is not a non-empty string
  makes the constructor throw, with \<open>uid\<close> still \<open>null\<close>; a non-empty string is stored
  as the \<open>uid\<close>; with no \<open>uid\<close> argument the constructor returns and \<open>uid\<close> stays
  \<open>null\<close>. So the \<open>uid\<close> of a constructed job is \<open>null\<close> or a non-empty string, and
  \<open>enqueue\<close>, \<open>params\<close>, \<open>run\<close> and the steps of the lifecycle leave it as it is.
\<close>

theorem C7_uid:
  "(uid_arg \<noteq> JUndefined \<and> (\<forall>s. uid_arg = JStr s \<longrightarrow> s = []) \<longrightarrow>
      (\<exists>j'. Job uid_arg a = Thrown (Error ''Job uid must be a valid string'') j' \<and>
            uid j' = JNull))
   \<and> (s \<noteq> [] \<longrightarrow> (\<exists>j'. Job (JStr s) a = Returned j' \<and> uid j' = JStr s))
   \<and> (\<exists>j'. Job JUndefined a = Returned j' \<and> uid j' = JNull)
   \<and> (Job uid_arg a = Returned j0 \<longrightarrow>
        uid j0 = JNull \<or> (\<exists>s. uid j0 = JStr s \<and> s \<noteq> []))
   \<and> uid (state_of (enqueue j v)) = uid j
   \<and> uid (state_of (params j v)) = uid j
   \<and> uid (state_of (run hook j)) = uid j
   \<and> uid (state_of (prepareRun hook j)) = uid j
   \<and> uid (state_of (applyNextExecutionBlock j)) = uid j"
proof (intro conjI impI)
  assume "uid_arg \<noteq> JUndefined \<and> (\<forall>s. uid_arg = JStr s \<longrightarrow> s = [])"
  then show "\<exists>j'. Job uid_arg a = Thrown (Error ''Job uid must be a valid string'') j' \<and>
            uid j' = JNull"
    by (cases uid_arg) (simp_all add: Job_def setUid_cases)
next
  assume "s \<noteq> []"
  then show "\<exists>j'. Job (JStr s) a = Returned j' \<and> uid j' = JStr s"
    by (simp add: Job_def setUid_cases setEventListeners_def)
next
  show "\<exists>j'. Job JUndefined a = Returned j' \<and> uid j' = JNull"
    by (simp add: Job_def setEventListeners_def)
next
  assume "Job uid_arg a = Returned j0"
  then show "uid j0 = JNull \<or> (\<exists>s. uid j0 = JStr s \<and> s \<noteq> [])"
    by (cases uid_arg)
      (auto simp: Job_def setUid_cases setEventListeners_def Let_def split: if_splits)
next
  show "uid (state_of (enqueue j v)) = uid j"
    by (simp add: enqueue_def enqueue_method_def)
next
  show "uid (state_of (params j v)) = uid j"
    by (simp add: params_def params_method_def Let_def)
next
  show "uid (state_of (run hook j)) = uid j"
    by (rule uid_run)
next
  show "uid (state_of (prepareRun hook j)) = uid j"
    by (rule uid_prepareRun)
next
  show "uid (state_of (applyNextExecutionBlock j)) = uid j"
    by (rule uid_applyNextExecutionBlock)
qed

text \<open>A number and the empty string are rejected, \<open>job1\<close> is accepted.\<close>

theorem C7_uid_witness:
  "(\<exists>j'. Job (JNum 5) (Some agent_ab) = Thrown (Error ''Job uid must be a valid string'') j' \<and>
          uid j' = JNull)
   \<and> (\<exists>j'. Job (JStr []) (Some agent_ab) = Thrown (Error ''Job uid must be a valid string'') j' \<and>
          uid j' = JNull)
   \<and> (\<exists>j'. Job (JStr ''job1'') (Some agent_ab) = Returned j' \<and> uid j' = JStr ''job1'')
   \<and> uid job1 = JStr ''job1''"
proof -
  have a: "JNum 5 \<noteq> JUndefined \<and> (\<forall>s. JNum 5 = JStr s \<longrightarrow> s = [])" by simp
  have b: "JStr [] \<noteq> JUndefined \<and> (\<forall>s. JStr [] = JStr s \<longrightarrow> s = [])" by simp
  have c: "''job1'' \<noteq> []" by simp
  have d: "Job (JStr ''job1'') (Some agent_ab) = Returned job1"
    by (simp add: job1_eq Job_def setUid_def setEventListeners_def)
  from C7_uid [where uid_arg = "JNum 5" and a = "Some agent_ab" and s = "''job1''"
      and ?j0.0 = job1 and j = job1] a c
  have w1: "\<exists>j'. Job (JNum 5) (Some agent_ab) = Thrown (Error ''Job uid must be a valid string'') j' \<and>
          uid j' = JNull"
    and w3: "\<exists>j'. Job (JStr ''job1'') (Some agent_ab) = Returned j' \<and> uid j' = JStr ''job1''"
    by blast+
  from C7_uid [where uid_arg = "JStr []" and a = "Some agent_ab" and s = "''job1''"
      and ?j0.0 = job1 and j = job1] b
  have w2: "\<exists>j'. Job (JStr []) (Some agent_ab) = Thrown (Error ''Job uid must be a valid string'') j' \<and>
          uid j' = JNull"
    by blast
  from C7_uid [where uid_arg = "JStr ''job1''" and a = "Some agent_ab" and s = "''job1''"
      and ?j0.0 = job1 and j = job1] d
  have w4: "uid job1 = JNull \<or> (\<exists>s. uid job1 = JStr s \<and> s \<noteq> [])"
    by blast
  have "uid job1 = JStr ''job1''" by (simp add: job1_eq)
  with w1 w2 w3 w4 show ?thesis by blast
qed

text \<open>
  \<open>undefined\<close> is not a non-empty string, and yet the constructor returns, with \<open>uid\<close>
  equal to \<open>null\<close>.
\<close>

theorem C7_counterexample:
  "\<not> isString JUndefined
   \<and> has_returned (Job JUndefined (Some agent_ab))
   \<and> uid (state_of (Job JUndefined (Some agent_ab))) = JNull"
  by (simp add: Job_def setEventListeners_def)








section \<open>Properties of the Http wrapper\<close>

lemma delegate_completed_eq:
  "delegate_completed v this callback c =
     interceptResponse (this\<lparr>cookieJar := c_jar c\<rparr>) (c_err c) (c_res c) (c_body c) callback"
  by (cases v) simp_all

lemma log_delegate_completed:
  "http_log (fst (state_of (delegate_completed v this callback c))) =
     http_log this @ (case entry_of c of None \<Rightarrow> [] | Some e \<Rightarrow> [e])"
  by (simp add: delegate_completed_eq interceptResponse_def pushToLog_def entry_of_def Let_def
      split: option.splits)

lemma log_completions:
  "http_log (completions this cs) =
     http_log this @ List.map_filter (\<lambda>x. entry_of (snd (snd x))) cs"
proof (induction cs arbitrary: this)
  case Nil
  then show ?case by (simp add: List.map_filter_simps)
next
  case (Cons x cs)
  show ?case
    by (cases "entry_of (snd (snd x))")
      (simp_all add: Cons.IH log_delegate_completed List.map_filter_simps)
qed

text \<open>
  Claim C9, as amended. When a request of any of the six delegates completes without an
  error, exactly one entry is appended to the log: the response, the body, the cookie
  string the jar resolves for the protocol and host of the response's request, that
  request, and its \<open>href\<close>. When it completes with an error, the log is left as it is.
  \<open>getLog\<close> returns the entries of the completions without error, in the order of
  completion.
\<close>

theorem C9_log:
  "(c_err c = None \<and> c_res c = Some r \<longrightarrow>
      getLog (fst (state_of (delegate_completed v this callback c))) =
        getLog this @
          [\<lparr>log_response = r, log_body = c_body c,
            log_cookies = c_jar c (protocol (uri (request r)) @ ''//'' @
                                   hostname (uri (request r))),
            log_request = request r, log_url = href (request r)\<rparr>])
   \<and> (c_err c = Some e \<longrightarrow>
        getLog (fst (state_of (delegate_completed v this callback c))) = getLog this)
   \<and> getLog (completions this cs) =
       getLog this @ List.map_filter (\<lambda>x. entry_of (snd (snd x))) cs"
  by (simp add: getLog_def log_delegate_completed log_completions entry_of_def)

text \<open>A request that succeeds, one that fails, and the three in a row.\<close>

theorem C9_log_witness:
  "getLog (fst (state_of (delegate_completed Get (Http None) (JFun []) completed1))) = [entry1]
   \<and> getLog (fst (state_of (delegate_completed Post (Http None) (JFun []) failed1))) = []
   \<and> getLog (completions (Http None)
        [(Get, JFun [], completed1), (Del, JFun [], failed1), (Put, JUndefined, completed1)]) =
       [entry1, entry1]"
proof -
  have a: "c_err completed1 = None \<and> c_res completed1 = Some res1"
    by (simp add: completed1_def)
  have b: "c_err failed1 = Some (Error ''ECONNREFUSED'')"
    by (simp add: failed1_def)
  have e: "\<lparr>log_response = res1, log_body = c_body completed1,
            log_cookies = c_jar completed1 (protocol (uri (request res1)) @ ''//'' @
                                   hostname (uri (request res1))),
            log_request = request res1, log_url = href (request res1)\<rparr> = entry1"
    by (simp add: entry1_def completed1_def res1_def jar1_def)
  have l: "getLog (Http None :: (unit, string) http) = []"
    by (simp add: getLog_def Http_def)
  have m: "List.map_filter (\<lambda>x. entry_of (snd (snd x)))
        [(Get, JFun [], completed1), (Del, JFun [], failed1), (Put, JUndefined, completed1)] =
       [entry1, entry1]"
    by (simp add: List.map_filter_simps entry_of_def entry1_def completed1_def failed1_def
        res1_def jar1_def)
  from C9_log [where c = completed1 and r = res1 and v = Get and this = "Http None"
      and callback = "JFun []" and e = "Error ''ECONNREFUSED''"
      and cs = "[(Get, JFun [], completed1), (Del, JFun [], failed1), (Put, JUndefined, completed1)]"] a
  have w1: "getLog (fst (state_of (delegate_completed Get (Http None) (JFun []) completed1))) = [entry1]"
    and w3: "getLog (completions (Http None)
        [(Get, JFun [], completed1), (Del, JFun [], failed1), (Put, JUndefined, completed1)]) =
       [entry1, entry1]"
    by (simp_all only: e l m append_Nil)
  from C9_log [where c = failed1 and r = res1 and v = Post and this = "Http None"
      and callback = "JFun []" and e = "Error ''ECONNREFUSED''" and cs = "[]"] b
  have w2: "getLog (fst (state_of (delegate_completed Post (Http None) (JFun []) failed1))) = []"
    by (simp only: l)
  from w1 w2 w3 show ?thesis by simp
qed

text \<open>
  A request that completes with an error: the callback is called with the error, and no
  entry is appended to the log.
\<close>

theorem C9_counterexample:
  "c_err failed1 = Some (Error ''ECONNREFUSED'')
   \<and> getLog (Http None :: (unit, string) http) = []
   \<and> getLog (fst (state_of (delegate_completed Get (Http None) (JFun []) failed1))) = []
   \<and> state_of (delegate_completed Get (Http None) (JFun []) failed1) =
       (Http None, Some (Callback_call (Some (Error ''ECONNREFUSED'')) None None))"
  by (simp add: failed1_def getLog_def Http_def interceptResponse_def)

end
